theory Spec2Isabelle
  imports
    Main
    "HOL-Library.Word"
    "HOL-Library.Sublist"
    "HOL-Library.Char_ord"
    "HOL-Library.List_Lexorder"
    "HOL-Library.Multiset"
    "HOL-Library.AList"
begin

unbundle bit_operations_syntax

section \<open>FolderCrypto: values, exceptions and the library interface\<close>

text \<open>
  The development embeds the core of \<^verbatim>\<open>FolderCrypto/app\<close>: \<^verbatim>\<open>core/crypto_engine.py\<close>,
  \<^verbatim>\<open>core/key_derivation.py\<close>, \<^verbatim>\<open>core/file_processor.py\<close> and the two services.

  Conventions.
  \<^item> A Python \<^verbatim>\<open>bytes\<close> value is a list of 8-bit words; a Python \<^verbatim>\<open>str\<close> is a
    \<^typ>\<open>string\<close> (code points below 256).
  \<^item> An exception is a value of type \<open>exn\<close>: its class, the text of the message as it is
    written in the source (for an f-string, the template with \<^verbatim>\<open>{}\<close> for every hole) and the
    interpolated values. A function that may raise returns \<open>exn + 'a\<close>, \<open>Inl\<close> being the raise.
  \<^item> What the code takes from libraries (AES-GCM, the KDFs, the JSON codec, the Unicode
    character classes, \<^verbatim>\<open>os.urandom\<close>) is a parameter of the model.
\<close>

type_synonym byte = "8 word"
type_synonym bytes = "byte list"

datatype json =
    JNull
  | JBool bool
  | JInt int
  | JStr string
  | JArr "json list"
  | JObj "(string \<times> json) list"

datatype exc_class =
    DecryptionError
  | EncryptionError
  | InvalidPasswordError
  | FileProcessingError
  | InvalidMetadataError
  | PyExc string

datatype exn = Exn exc_class string "fmt_arg list"
and fmt_arg = AStr string | ANat nat | AJson json | AExn exn

type_synonym 'a result = "exn + 'a"

fun exc_class_of :: "exn \<Rightarrow> exc_class" where
  "exc_class_of (Exn c m as) = c"

text \<open>\<^verbatim>\<open>struct.pack\<close> for the three formats the code uses; a value out of range raises
  \<^verbatim>\<open>struct.error\<close>.\<close>

fun le_bytes :: "nat \<Rightarrow> nat \<Rightarrow> bytes" where
  "le_bytes 0 n = []"
| "le_bytes (Suc k) n = word_of_nat n # le_bytes k (n div 256)"

fun le_nat :: "bytes \<Rightarrow> nat" where
  "le_nat [] = 0"
| "le_nat (b # bs) = unat b + 256 * le_nat bs"

definition struct_error :: exn where
  "struct_error = Exn (PyExc ''struct.error'') ''argument out of range'' []"

definition pack_B :: "nat \<Rightarrow> bytes result" where
  "pack_B n = (if n < 2 ^ 8 then Inr (le_bytes 1 n) else Inl struct_error)"

definition pack_I :: "nat \<Rightarrow> bytes result" where
  "pack_I n = (if n < 2 ^ 32 then Inr (le_bytes 4 n) else Inl struct_error)"

definition pack_Q :: "nat \<Rightarrow> bytes result" where
  "pack_Q n = (if n < 2 ^ 64 then Inr (le_bytes 8 n) else Inl struct_error)"

text \<open>\<^verbatim>\<open>struct.unpack\<close> is only ever applied to a buffer of the right length.\<close>

definition unpack :: "bytes \<Rightarrow> nat" where
  "unpack bs = le_nat bs"

text \<open>The \<^verbatim>\<open>AESGCM\<close> object of the \<^verbatim>\<open>cryptography\<close> package, with the key inside:
  \<^verbatim>\<open>encrypt(nonce, data, associated_data)\<close> and \<^verbatim>\<open>decrypt(nonce, data, associated_data)\<close>.\<close>

record AESGCM =
  aes_encrypt :: "bytes \<Rightarrow> bytes \<Rightarrow> bytes \<Rightarrow> bytes result"
  aes_decrypt :: "bytes \<Rightarrow> bytes \<Rightarrow> bytes \<Rightarrow> bytes result"

text \<open>The source of \<^verbatim>\<open>os.urandom\<close>: an unbounded supply of bytes.\<close>

type_synonym rng = "nat \<Rightarrow> byte"

definition urandom :: "nat \<Rightarrow> rng \<Rightarrow> bytes \<times> rng" where
  "urandom n r = (map r [0..<n], \<lambda>i. r (n + i))"

record pylib =
  new_AESGCM :: "bytes \<Rightarrow> AESGCM"
  pbkdf2_hmac_sha256 :: "nat \<Rightarrow> nat \<Rightarrow> bytes \<Rightarrow> bytes \<Rightarrow> bytes"
  argon2_importable :: bool
  hash_secret_raw :: "bytes \<Rightarrow> bytes \<Rightarrow> nat \<Rightarrow> nat \<Rightarrow> nat \<Rightarrow> nat \<Rightarrow> bytes"
  json_dumps :: "json \<Rightarrow> bytes"
  json_loads :: "bytes \<Rightarrow> json result"
  isupper :: "char \<Rightarrow> bool"
  islower :: "char \<Rightarrow> bool"
  isdigit :: "char \<Rightarrow> bool"
  isalnum :: "char \<Rightarrow> bool"

section \<open>crypto\_engine.py\<close>

definition KEY_SIZE :: nat where "KEY_SIZE = 32"
definition NONCE_SIZE :: nat where "NONCE_SIZE = 12"
definition TAG_SIZE :: nat where "TAG_SIZE = 16"
definition CHUNK_SIZE :: nat where "CHUNK_SIZE = 64 * 1024"
definition VERSION :: nat where "VERSION = 1"

record CryptoEngine =
  aesgcm :: AESGCM

text \<open>\<^verbatim>\<open>CryptoEngine.__init__\<close>\<close>

definition new_CryptoEngine :: "pylib \<Rightarrow> bytes \<Rightarrow> CryptoEngine result" where
  "new_CryptoEngine L key =
     (if length key \<noteq> KEY_SIZE
      then Inl (Exn EncryptionError ''Key must be exactly {} bytes, got {}''
                  [ANat KEY_SIZE, ANat (length key)])
      else Inr \<lparr>aesgcm = new_AESGCM L key\<rparr>)"

definition generate_nonce :: "rng \<Rightarrow> bytes \<times> rng" where
  "generate_nonce r = urandom NONCE_SIZE r"

text \<open>\<^verbatim>\<open>nonce[-j] ^= v\<close> on a \<^verbatim>\<open>bytearray\<close>: an index before the start raises
  \<^verbatim>\<open>IndexError\<close>.\<close>

definition xor_from_end :: "bytes \<Rightarrow> nat \<Rightarrow> byte \<Rightarrow> bytes result" where
  "xor_from_end nonce j v =
     (if 0 < j \<and> j \<le> length nonce
      then Inr (nonce[length nonce - j := (nonce ! (length nonce - j)) XOR v])
      else Inl (Exn (PyExc ''IndexError'') ''bytearray index out of range'' []))"

text \<open>The loop \<^verbatim>\<open>for i in range(8): nonce[-(8-i)] ^= chunk_bytes[i]\<close>, from index \<open>i\<close> on.\<close>

function derive_loop :: "bytes \<Rightarrow> bytes \<Rightarrow> nat \<Rightarrow> bytes result" where
  "derive_loop nonce chunk_bytes i =
     (if i < 8
      then (case xor_from_end nonce (8 - i) (chunk_bytes ! i) of
              Inl e \<Rightarrow> Inl e
            | Inr nonce' \<Rightarrow> derive_loop nonce' chunk_bytes (i + 1))
      else Inr nonce)"
  by pat_completeness auto
termination
  by (relation "measure (\<lambda>(nonce, chunk_bytes, i). 8 - i)") auto

declare derive_loop.simps [simp del]

text \<open>\<^verbatim>\<open>CryptoEngine._derive_chunk_nonce\<close>\<close>

definition derive_chunk_nonce :: "bytes \<Rightarrow> nat \<Rightarrow> bytes result" where
  "derive_chunk_nonce base_nonce chunk_number =
     (case pack_Q chunk_number of
        Inl e \<Rightarrow> Inl e
      | Inr chunk_bytes \<Rightarrow> derive_loop base_nonce chunk_bytes 0)"

text \<open>The body of the \<^verbatim>\<open>while True\<close> loop of \<^verbatim>\<open>encrypt_file\<close>. The first argument after the
  engine is the base nonce, \<open>input\<close> is what is left of the input file; the result is what the
  loop wrote to the output file and the exception that ended it, if any.\<close>

function encrypt_chunks ::
  "CryptoEngine \<Rightarrow> bytes \<Rightarrow> bytes \<Rightarrow> nat \<Rightarrow> bytes \<Rightarrow> bytes \<times> exn option" where
  "encrypt_chunks E nonce associated_data chunk_number input =
     (let chunk = take CHUNK_SIZE input in
      if chunk = [] then ([], None)
      else
        (case pack_Q chunk_number of
           Inl e \<Rightarrow> ([], Some e)
         | Inr cn \<Rightarrow>
        (case derive_chunk_nonce nonce chunk_number of
           Inl e \<Rightarrow> ([], Some e)
         | Inr chunk_nonce \<Rightarrow>
        (case aes_encrypt (aesgcm E) chunk_nonce chunk (associated_data @ cn) of
           Inl e \<Rightarrow> ([], Some e)
         | Inr encrypted_chunk \<Rightarrow>
        (case pack_I (length encrypted_chunk) of
           Inl e \<Rightarrow> ([], Some e)
         | Inr sz \<Rightarrow>
             (let (written, r) =
                    encrypt_chunks E nonce associated_data (chunk_number + 1)
                      (drop CHUNK_SIZE input)
              in (sz @ encrypted_chunk @ written, r)))))))"
  by pat_completeness auto
termination
  by (relation "measure (\<lambda>(E, nonce, ad, chunk_number, input). length input)")
     (auto simp: CHUNK_SIZE_def)

declare encrypt_chunks.simps [simp del]

text \<open>\<^verbatim>\<open>CryptoEngine.encrypt_file\<close>: the bytes written to \<^verbatim>\<open>output_file\<close>, the random source
  after the nonce has been drawn, and the outcome. Every exception leaves as
  \<^verbatim>\<open>EncryptionError\<close>.\<close>

definition encryption_failed :: "exn \<Rightarrow> exn" where
  "encryption_failed e = Exn EncryptionError ''Encryption failed: {}'' [AExn e]"

definition encrypt_file ::
  "CryptoEngine \<Rightarrow> rng \<Rightarrow> bytes \<Rightarrow> bytes \<Rightarrow> bytes \<times> rng \<times> unit result" where
  "encrypt_file E r input associated_data =
     (let (nonce, r') = generate_nonce r;
          file_size = length input in
      case pack_B VERSION of
        Inl e \<Rightarrow> ([], r', Inl (encryption_failed e))
      | Inr v \<Rightarrow>
      (case pack_Q file_size of
         Inl e \<Rightarrow> (v @ nonce, r', Inl (encryption_failed e))
       | Inr fs \<Rightarrow>
           (case encrypt_chunks E nonce associated_data 0 input of
              (written, Some e) \<Rightarrow> (v @ nonce @ fs @ written, r', Inl (encryption_failed e))
            | (written, None) \<Rightarrow> (v @ nonce @ fs @ written, r', Inr ()))))"

text \<open>The \<^verbatim>\<open>while True\<close> loop of \<^verbatim>\<open>decrypt_file\<close>: \<open>input\<close> is what is left of the input file,
  the result is what was written to the output file, and either the exception raised or
  the final \<^verbatim>\<open>total_decrypted\<close>.\<close>

definition auth_failed :: exn where
  "auth_failed = Exn DecryptionError ''Decryption failed: wrong password or corrupted data'' []"

definition decryption_failed :: "exn \<Rightarrow> exn" where
  "decryption_failed e = Exn DecryptionError ''Decryption failed: {}'' [AExn e]"

function decrypt_chunks ::
  "CryptoEngine \<Rightarrow> bytes \<Rightarrow> bytes \<Rightarrow> nat \<Rightarrow> nat \<Rightarrow> bytes \<Rightarrow> bytes \<times> nat result" where
  "decrypt_chunks E nonce associated_data chunk_number total_decrypted input =
     (let chunk_size_bytes = take 4 input in
      if chunk_size_bytes = [] then ([], Inr total_decrypted)
      else if length chunk_size_bytes \<noteq> 4
      then ([], Inl (Exn DecryptionError ''Invalid file: corrupted chunk size'' []))
      else
        (let chunk_size = unpack chunk_size_bytes;
             encrypted_chunk = take chunk_size (drop 4 input) in
         if length encrypted_chunk \<noteq> chunk_size
         then ([], Inl (Exn DecryptionError ''Invalid file: corrupted chunk data'' []))
         else
           (case pack_Q chunk_number of
              Inl e \<Rightarrow> ([], Inl (decryption_failed e))
            | Inr cn \<Rightarrow>
           (case derive_chunk_nonce nonce chunk_number of
              Inl e \<Rightarrow> ([], Inl (decryption_failed e))
            | Inr chunk_nonce \<Rightarrow>
           (case aes_decrypt (aesgcm E) chunk_nonce encrypted_chunk (associated_data @ cn) of
              Inl e \<Rightarrow> ([], Inl auth_failed)
            | Inr decrypted_chunk \<Rightarrow>
                (let (written, r) =
                       decrypt_chunks E nonce associated_data (chunk_number + 1)
                         (total_decrypted + length decrypted_chunk)
                         (drop chunk_size (drop 4 input))
                 in (decrypted_chunk @ written, r)))))))"
  by pat_completeness auto
termination
  by (relation "measure (\<lambda>(E, nonce, ad, chunk_number, total, input). length input)")
     auto

declare decrypt_chunks.simps [simp del]

text \<open>\<^verbatim>\<open>CryptoEngine.decrypt_file\<close>: the bytes written to \<^verbatim>\<open>output_file\<close> and the outcome.\<close>

definition decrypt_file :: "CryptoEngine \<Rightarrow> bytes \<Rightarrow> bytes \<Rightarrow> bytes \<times> unit result" where
  "decrypt_file E input associated_data =
     (let version_bytes = take 1 input in
      if version_bytes = []
      then ([], Inl (Exn DecryptionError ''Invalid file: empty or corrupted'' []))
      else
        (let version = unpack version_bytes in
         if version \<noteq> VERSION
         then ([], Inl (Exn DecryptionError ''Unsupported file version: {} (expected {})''
                          [ANat version, ANat VERSION]))
         else
           (let nonce = take NONCE_SIZE (drop 1 input) in
            if length nonce \<noteq> NONCE_SIZE
            then ([], Inl (Exn DecryptionError ''Invalid file: corrupted header'' []))
            else
              (let file_size_bytes = take 8 (drop NONCE_SIZE (drop 1 input)) in
               if length file_size_bytes \<noteq> 8
               then ([], Inl (Exn DecryptionError ''Invalid file: corrupted header'' []))
               else
                 (let expected_file_size = unpack file_size_bytes in
                  case decrypt_chunks E nonce associated_data 0 0
                         (drop 8 (drop NONCE_SIZE (drop 1 input))) of
                    (written, Inl e) \<Rightarrow> (written, Inl e)
                  | (written, Inr total_decrypted) \<Rightarrow>
                      if total_decrypted \<noteq> expected_file_size
                      then (written, Inl (Exn DecryptionError
                                            ''File size mismatch: expected {}, got {}''
                                            [ANat expected_file_size, ANat total_decrypted]))
                      else (written, Inr ()))))))"

text \<open>\<^verbatim>\<open>CryptoEngine.encrypt_metadata\<close> and \<^verbatim>\<open>CryptoEngine.decrypt_metadata\<close>; the associated
  data is the literal \<^verbatim>\<open>b"metadata"\<close>.\<close>

definition metadata_ad :: bytes where
  "metadata_ad = map of_char ''metadata''"

definition encrypt_metadata :: "CryptoEngine \<Rightarrow> bytes \<Rightarrow> bytes \<Rightarrow> bytes result" where
  "encrypt_metadata E data nonce =
     (case aes_encrypt (aesgcm E) nonce data metadata_ad of
        Inl e \<Rightarrow> Inl (Exn EncryptionError ''Metadata encryption failed: {}'' [AExn e])
      | Inr c \<Rightarrow> Inr c)"

definition decrypt_metadata :: "CryptoEngine \<Rightarrow> bytes \<Rightarrow> bytes \<Rightarrow> bytes result" where
  "decrypt_metadata E encrypted_data nonce =
     (case aes_decrypt (aesgcm E) nonce encrypted_data metadata_ad of
        Inl e \<Rightarrow> Inl (Exn DecryptionError
                        ''Metadata decryption failed: wrong password or corrupted data'' [])
      | Inr d \<Rightarrow> Inr d)"

section \<open>key\_derivation.py\<close>

definition PBKDF2_ITERATIONS :: nat where "PBKDF2_ITERATIONS = 600000"
definition SALT_SIZE :: nat where "SALT_SIZE = 32"

text \<open>\<^verbatim>\<open>KeyDerivation.verify_password_strength\<close>\<close>

definition verify_password_strength :: "pylib \<Rightarrow> string \<Rightarrow> bool \<times> string" where
  "verify_password_strength L password =
     (if length password < 8 then (False, ''Password must be at least 8 characters long'')
      else if length password < 12 then (True, ''Password is weak but acceptable'')
      else
        (let has_upper = list_ex (isupper L) password;
             has_lower = list_ex (islower L) password;
             has_digit = list_ex (isdigit L) password;
             has_special = list_ex (\<lambda>c. \<not> isalnum L c) password;
             strength_score = sum_list (map of_bool [has_upper, has_lower, has_digit, has_special])
         in if (3::nat) \<le> strength_score then (True, ''Password is strong'')
            else if 2 \<le> strength_score then (True, ''Password is moderate'')
            else (True, ''Password is weak but acceptable'')))"

text \<open>\<^verbatim>\<open>KeyDerivation\<close>: the flag given to the constructor and whether \<^verbatim>\<open>argon2\<close> could be
  imported.\<close>

record KeyDerivation =
  use_argon2 :: bool
  argon2_available :: bool

definition new_KeyDerivation :: "pylib \<Rightarrow> bool \<Rightarrow> KeyDerivation" where
  "new_KeyDerivation L use =
     (if use then \<lparr>use_argon2 = use, argon2_available = argon2_importable L\<rparr>
      else \<lparr>use_argon2 = use, argon2_available = False\<rparr>)"

definition generate_salt :: "rng \<Rightarrow> bytes \<times> rng" where
  "generate_salt r = urandom SALT_SIZE r"

text \<open>\<^verbatim>\<open>str.encode("utf-8")\<close> on code points below 256.\<close>

definition encode_char :: "char \<Rightarrow> bytes" where
  "encode_char c =
     (let n = (of_char c :: nat) in
      if n < 128 then [word_of_nat n]
      else [word_of_nat (192 + n div 64), word_of_nat (128 + n mod 64)])"

definition encode_utf8 :: "string \<Rightarrow> bytes" where
  "encode_utf8 s = concat (map encode_char s)"

definition derive_key_pbkdf2 :: "pylib \<Rightarrow> bytes \<Rightarrow> bytes \<Rightarrow> bytes" where
  "derive_key_pbkdf2 L password salt =
     pbkdf2_hmac_sha256 L KEY_SIZE PBKDF2_ITERATIONS salt password"

definition derive_key_argon2 :: "pylib \<Rightarrow> bytes \<Rightarrow> bytes \<Rightarrow> bytes" where
  "derive_key_argon2 L password salt = hash_secret_raw L password salt 3 65536 4 KEY_SIZE"

text \<open>\<^verbatim>\<open>KeyDerivation.derive_key\<close>\<close>

definition derive_key :: "pylib \<Rightarrow> KeyDerivation \<Rightarrow> string \<Rightarrow> bytes \<Rightarrow> bytes result" where
  "derive_key L kd password salt =
     (if password = [] then Inl (Exn InvalidPasswordError ''Password cannot be empty'' [])
      else if salt = [] \<or> length salt \<noteq> SALT_SIZE
      then Inl (Exn InvalidPasswordError ''Salt must be exactly {} bytes'' [ANat SALT_SIZE])
      else
        (let password_bytes = encode_utf8 password in
         if argon2_available kd \<and> use_argon2 kd
         then Inr (derive_key_argon2 L password_bytes salt)
         else Inr (derive_key_pbkdf2 L password_bytes salt)))"

section \<open>The file system\<close>

text \<open>
  A resolved absolute path is the list of its components; the empty list is the root
  directory. A node is a directory with its permission bits, or a regular file with its
  permission bits and content; there are no links and no special files. The state of the
  operating system is the table of nodes in the order in which the system enumerates
  them, the modes a new directory and a new file get under the process umask, and the
  source of \<^verbatim>\<open>os.urandom\<close>. The process may read and write every node (no \<^verbatim>\<open>EACCES\<close>), and
  the names \<^verbatim>\<open>..\<close> and \<^verbatim>\<open>.\<close> are not interpreted by the table.
\<close>

type_synonym path = "string list"

datatype node = Dir nat | File nat bytes

record os_state =
  nodes :: "(path \<times> node) list"
  dir_mode :: nat
  file_mode :: nat
  random :: rng

definition lookup :: "os_state \<Rightarrow> path \<Rightarrow> node option" where
  "lookup s p = (if p = [] then Some (Dir 493) else map_of (nodes s) p)"

definition path_exists :: "os_state \<Rightarrow> path \<Rightarrow> bool" where
  "path_exists s p = (lookup s p \<noteq> None)"

definition is_dir :: "os_state \<Rightarrow> path \<Rightarrow> bool" where
  "is_dir s p = (case lookup s p of Some (Dir m) \<Rightarrow> True | _ \<Rightarrow> False)"

definition is_file :: "os_state \<Rightarrow> path \<Rightarrow> bool" where
  "is_file s p = (case lookup s p of Some (File m d) \<Rightarrow> True | _ \<Rightarrow> False)"

definition put :: "os_state \<Rightarrow> path \<Rightarrow> node \<Rightarrow> os_state" where
  "put s p n = s\<lparr>nodes := AList.update p n (nodes s)\<rparr>"

definition str_abs :: "path \<Rightarrow> string" where
  "str_abs p = (if p = [] then ''/'' else concat (map (\<lambda>c. CHR ''/'' # c) p))"

definition FileNotFoundError :: "path \<Rightarrow> exn" where
  "FileNotFoundError p =
     Exn (PyExc ''FileNotFoundError'') ''[Errno 2] No such file or directory: {}'' [AStr (str_abs p)]"

definition NotADirectoryError :: "path \<Rightarrow> exn" where
  "NotADirectoryError p =
     Exn (PyExc ''NotADirectoryError'') ''[Errno 20] Not a directory: {}'' [AStr (str_abs p)]"

definition IsADirectoryError :: "path \<Rightarrow> exn" where
  "IsADirectoryError p =
     Exn (PyExc ''IsADirectoryError'') ''[Errno 21] Is a directory: {}'' [AStr (str_abs p)]"

definition FileExistsError :: "path \<Rightarrow> exn" where
  "FileExistsError p =
     Exn (PyExc ''FileExistsError'') ''[Errno 17] File exists: {}'' [AStr (str_abs p)]"

text \<open>The error for a path that does not resolve: \<^verbatim>\<open>ENOTDIR\<close> when a proper prefix of it is a
  regular file, \<^verbatim>\<open>ENOENT\<close> otherwise.\<close>

definition missing_error :: "os_state \<Rightarrow> path \<Rightarrow> exn" where
  "missing_error s p =
     (if list_ex (is_file s) (butlast (prefixes p)) then NotADirectoryError p
      else FileNotFoundError p)"

text \<open>\<^verbatim>\<open>os.mkdir\<close>\<close>

definition os_mkdir :: "os_state \<Rightarrow> path \<Rightarrow> os_state result" where
  "os_mkdir s p =
     (if path_exists s p then Inl (FileExistsError p)
      else if is_dir s (butlast p) then Inr (put s p (Dir (dir_mode s)))
      else Inl (missing_error s p))"

text \<open>\<^verbatim>\<open>Path.mkdir(parents=True, exist_ok=True)\<close>, as \<^verbatim>\<open>pathlib\<close> implements it: try
  \<^verbatim>\<open>os.mkdir\<close>; on \<^verbatim>\<open>FileNotFoundError\<close> make the parent in the same way and try once more; on
  any other \<^verbatim>\<open>OSError\<close> succeed when the path is a directory. When it raises, nothing has
  been created.\<close>

function mkdir_parents :: "os_state \<Rightarrow> path \<Rightarrow> os_state result" where
  "mkdir_parents s p =
     (case os_mkdir s p of
        Inr s' \<Rightarrow> Inr s'
      | Inl e \<Rightarrow>
          if exc_class_of e = PyExc ''FileNotFoundError''
          then
            (if p = [] then Inl e
             else
               (case mkdir_parents s (butlast p) of
                  Inl e' \<Rightarrow> Inl e'
                | Inr s' \<Rightarrow>
                    (case os_mkdir s' p of
                       Inr s'' \<Rightarrow> Inr s''
                     | Inl e2 \<Rightarrow>
                         if exc_class_of e2 = PyExc ''FileNotFoundError'' then Inl e2
                         else if is_dir s' p then Inr s'
                         else Inl e2)))
          else if is_dir s p then Inr s
          else Inl e)"
  by pat_completeness auto
termination
  by (relation "measure (\<lambda>(s, p). length p)") auto

declare mkdir_parents.simps [simp del]

text \<open>\<^verbatim>\<open>open(p, "rb")\<close>: whether the file can be opened for reading.\<close>

definition open_rb :: "os_state \<Rightarrow> path \<Rightarrow> unit result" where
  "open_rb s p =
     (case lookup s p of
        Some (File m d) \<Rightarrow> Inr ()
      | Some (Dir m) \<Rightarrow> Inl (IsADirectoryError p)
      | None \<Rightarrow> Inl (missing_error s p))"

text \<open>What an open file yields when it is read to its end.\<close>

definition content :: "os_state \<Rightarrow> path \<Rightarrow> bytes" where
  "content s p = (case lookup s p of Some (File m d) \<Rightarrow> d | _ \<Rightarrow> [])"

text \<open>\<^verbatim>\<open>open(p, "wb")\<close>: an existing file is truncated and keeps its mode, a new one gets the
  default mode.\<close>

definition open_wb :: "os_state \<Rightarrow> path \<Rightarrow> os_state result" where
  "open_wb s p =
     (case lookup s p of
        Some (Dir m) \<Rightarrow> Inl (IsADirectoryError p)
      | Some (File m d) \<Rightarrow> Inr (put s p (File m []))
      | None \<Rightarrow>
          if is_dir s (butlast p) then Inr (put s p (File (file_mode s) []))
          else Inl (missing_error s p))"

text \<open>\<^verbatim>\<open>f.write(data)\<close> on a file opened for writing.\<close>

definition write_bytes :: "os_state \<Rightarrow> path \<Rightarrow> bytes \<Rightarrow> os_state" where
  "write_bytes s p data =
     (case lookup s p of Some (File m d) \<Rightarrow> put s p (File m (d @ data)) | _ \<Rightarrow> s)"

text \<open>\<^verbatim>\<open>Path.stat()\<close> with its fields \<^verbatim>\<open>st_mode\<close> (file type and permission bits) and
  \<^verbatim>\<open>st_size\<close> (read for regular files only).\<close>

definition stat :: "os_state \<Rightarrow> path \<Rightarrow> node result" where
  "stat s p = (case lookup s p of Some n \<Rightarrow> Inr n | None \<Rightarrow> Inl (missing_error s p))"

definition S_IFDIR :: nat where "S_IFDIR = 16384"
definition S_IFREG :: nat where "S_IFREG = 32768"

fun st_mode :: "node \<Rightarrow> nat" where
  "st_mode (Dir m) = S_IFDIR + m"
| "st_mode (File m d) = S_IFREG + m"

fun st_size :: "node \<Rightarrow> nat" where
  "st_size (Dir m) = 0"
| "st_size (File m d) = length d"

text \<open>\<^verbatim>\<open>os.chmod(path, mode)\<close> with a mode read from the manifest: a value that is not an integer
  raises \<^verbatim>\<open>TypeError\<close>, one that does not fit a C \<^verbatim>\<open>int\<close> raises \<^verbatim>\<open>OverflowError\<close>; the
  system keeps the twelve permission bits.\<close>

definition chmod_int :: "os_state \<Rightarrow> path \<Rightarrow> int \<Rightarrow> os_state result" where
  "chmod_int s p m =
     (if m < - (2 ^ 31) \<or> 2 ^ 31 \<le> m
      then Inl (Exn (PyExc ''OverflowError'') ''Python int too large to convert to C int'' [])
      else
        (case lookup s p of
           None \<Rightarrow> Inl (missing_error s p)
         | Some (Dir m0) \<Rightarrow> Inr (put s p (Dir (nat (m mod 4096))))
         | Some (File m0 d) \<Rightarrow> Inr (put s p (File (nat (m mod 4096)) d))))"

definition os_chmod :: "os_state \<Rightarrow> path \<Rightarrow> json \<Rightarrow> os_state result" where
  "os_chmod s p mode =
     (case mode of
        JInt m \<Rightarrow> chmod_int s p m
      | JBool b \<Rightarrow> chmod_int s p (if b then 1 else 0)
      | _ \<Rightarrow> Inl (Exn (PyExc ''TypeError'') ''an integer is required'' [AJson mode]))"

text \<open>\<^verbatim>\<open>Path.rglob("*")\<close>: every node below the root, in the order of the table.\<close>

definition rglob :: "os_state \<Rightarrow> path \<Rightarrow> path list" where
  "rglob s root = filter (strict_prefix root) (map fst (nodes s))"

subsection \<open>\<^verbatim>\<open>pathlib\<close> paths and strings\<close>

text \<open>A \<^verbatim>\<open>PurePath\<close> is absolute or relative and has its parts. \<open>Path\<close> parses a string
  (empty and \<^verbatim>\<open>.\<close> components are dropped, \<^verbatim>\<open>..\<close> is kept), \<open>str_of\<close> prints a path, and
  \<open>join_under\<close> is the operator \<^verbatim>\<open>/\<close> on a resolved base.\<close>

type_synonym pypath = "bool \<times> string list"

fun split_on :: "char \<Rightarrow> string \<Rightarrow> string list" where
  "split_on c [] = [[]]"
| "split_on c (x # xs) =
     (if x = c then [] # split_on c xs
      else (case split_on c xs of [] \<Rightarrow> [[x]] | w # ws \<Rightarrow> (x # w) # ws))"

fun join_parts :: "string list \<Rightarrow> string" where
  "join_parts [] = []"
| "join_parts [x] = x"
| "join_parts (x # y # ys) = x @ CHR ''/'' # join_parts (y # ys)"

definition Path :: "string \<Rightarrow> pypath" where
  "Path s =
     (s \<noteq> [] \<and> hd s = CHR ''/'',
      filter (\<lambda>w. w \<noteq> [] \<and> w \<noteq> ''.'') (split_on CHR ''/'' s))"

definition str_of :: "pypath \<Rightarrow> string" where
  "str_of q =
     (if fst q then CHR ''/'' # join_parts (snd q)
      else if snd q = [] then ''.''
      else join_parts (snd q))"

definition join_under :: "path \<Rightarrow> pypath \<Rightarrow> path" where
  "join_under base q = (if fst q then snd q else base @ snd q)"

text \<open>\<^verbatim>\<open>item_path.relative_to(input_path)\<close>\<close>

definition relative_to :: "path \<Rightarrow> path \<Rightarrow> pypath result" where
  "relative_to item root =
     (if prefix root item then Inr (False, drop (length root) item)
      else Inl (Exn (PyExc ''ValueError'') ''{} is not in the subpath of {}''
                  [AStr (str_abs item), AStr (str_abs root)]))"

subsection \<open>Python values read from JSON\<close>

text \<open>Truth value, comparison with an integer (\<^verbatim>\<open>True == 1\<close>), and iteration.\<close>

fun truthy :: "json \<Rightarrow> bool" where
  "truthy JNull = False"
| "truthy (JBool b) = b"
| "truthy (JInt n) = (n \<noteq> 0)"
| "truthy (JStr s) = (s \<noteq> [])"
| "truthy (JArr xs) = (xs \<noteq> [])"
| "truthy (JObj kvs) = (kvs \<noteq> [])"

fun py_eq_int :: "json \<Rightarrow> int \<Rightarrow> bool" where
  "py_eq_int (JInt n) k = (n = k)"
| "py_eq_int (JBool b) k = ((if b then 1 else 0) = k)"
| "py_eq_int v k = False"

fun py_iter :: "json \<Rightarrow> json list result" where
  "py_iter (JArr xs) = Inr xs"
| "py_iter (JStr s) = Inr (map (\<lambda>c. JStr [c]) s)"
| "py_iter (JObj kvs) = Inr (map (\<lambda>kv. JStr (fst kv)) kvs)"
| "py_iter v = Inl (Exn (PyExc ''TypeError'') ''object is not iterable'' [AJson v])"

section \<open>file\_processor.py\<close>

text \<open>The dataclass \<^verbatim>\<open>FileMetadata\<close>. Python does not check the annotations, so a field
  holds whatever value the manifest gave it.\<close>

record FileMetadata =
  relative_path :: json
  original_size :: json
  encrypted_size :: json
  is_directory :: json
  permissions :: json

definition METADATA_FILENAME :: string where
  "METADATA_FILENAME = ''.folder_crypto_metadata.enc''"

definition ENCRYPTED_EXTENSION :: string where
  "ENCRYPTED_EXTENSION = ''.encrypted''"

text \<open>\<^verbatim>\<open>dataclasses.asdict\<close>\<close>

definition asdict :: "FileMetadata \<Rightarrow> json" where
  "asdict m =
     JObj [(''relative_path'', relative_path m),
           (''original_size'', original_size m),
           (''encrypted_size'', encrypted_size m),
           (''is_directory'', is_directory m),
           (''permissions'', permissions m)]"

text \<open>\<^verbatim>\<open>FileMetadata(**m)\<close>: \<open>m\<close> must be a mapping; a key that is not a field and a missing
  field without default raise \<^verbatim>\<open>TypeError\<close>.\<close>

definition field_names :: "string list" where
  "field_names =
     [''relative_path'', ''original_size'', ''encrypted_size'', ''is_directory'', ''permissions'']"

definition required_fields :: "string list" where
  "required_fields = [''relative_path'', ''original_size'', ''encrypted_size'', ''is_directory'']"

definition get_or :: "(string \<times> json) list \<Rightarrow> string \<Rightarrow> json \<Rightarrow> json" where
  "get_or kvs k d = (case map_of kvs k of Some v \<Rightarrow> v | None \<Rightarrow> d)"

definition new_FileMetadata :: "json \<Rightarrow> FileMetadata result" where
  "new_FileMetadata m =
     (case m of
        JObj kvs \<Rightarrow>
          if list_ex (\<lambda>k. k \<notin> set field_names) (map fst kvs)
          then Inl (Exn (PyExc ''TypeError'') ''__init__() got an unexpected keyword argument'' [AJson m])
          else if list_ex (\<lambda>k. k \<notin> set (map fst kvs)) required_fields
          then Inl (Exn (PyExc ''TypeError'') ''__init__() missing required positional arguments'' [AJson m])
          else Inr \<lparr>relative_path = get_or kvs ''relative_path'' JNull,
                    original_size = get_or kvs ''original_size'' JNull,
                    encrypted_size = get_or kvs ''encrypted_size'' JNull,
                    is_directory = get_or kvs ''is_directory'' JNull,
                    permissions = get_or kvs ''permissions'' JNull\<rparr>
      | _ \<Rightarrow> Inl (Exn (PyExc ''TypeError'') ''argument after ** must be a mapping'' [AJson m]))"

text \<open>\<^verbatim>\<open>FileProcessor._collect_items\<close>\<close>

definition collect_items :: "os_state \<Rightarrow> path \<Rightarrow> path list" where
  "collect_items s root_path =
     (let items = rglob s root_path;
          directories = filter (is_dir s) items;
          files = filter (\<lambda>item. \<not> is_dir s item) items
      in sort directories @ sort files)"

definition failed_to_save :: "exn \<Rightarrow> exn" where
  "failed_to_save e = Exn FileProcessingError ''Failed to save metadata: {}'' [AExn e]"

text \<open>\<^verbatim>\<open>FileProcessor._save_metadata\<close>: the library serialises the dictionary
  (\<^verbatim>\<open>json.dumps(..., indent=2).encode("utf-8")\<close>).\<close>

definition save_metadata ::
  "pylib \<Rightarrow> CryptoEngine \<Rightarrow> os_state \<Rightarrow> path \<Rightarrow> FileMetadata list \<Rightarrow> os_state \<times> unit result" where
  "save_metadata L E s output_path metadata_list =
     (let metadata_dict = JObj [(''version'', JInt 1), (''files'', JArr (map asdict metadata_list))];
          metadata_bytes = json_dumps L metadata_dict;
          (nonce, r') = generate_nonce (random s);
          s1 = s\<lparr>random := r'\<rparr>
      in case encrypt_metadata E metadata_bytes nonce of
           Inl e \<Rightarrow> (s1, Inl (failed_to_save e))
         | Inr encrypted_metadata \<Rightarrow>
             (let metadata_path = output_path @ [METADATA_FILENAME] in
              case open_wb s1 metadata_path of
                Inl e \<Rightarrow> (s1, Inl (failed_to_save e))
              | Inr s2 \<Rightarrow>
                  (write_bytes (write_bytes s2 metadata_path nonce) metadata_path
                     encrypted_metadata, Inr ())))"

text \<open>The list comprehension \<^verbatim>\<open>[FileMetadata(**m) for m in ...]\<close>.\<close>

fun parse_entries :: "json list \<Rightarrow> FileMetadata list result" where
  "parse_entries [] = Inr []"
| "parse_entries (m # ms) =
     (case new_FileMetadata m of
        Inl e \<Rightarrow> Inl e
      | Inr x \<Rightarrow> (case parse_entries ms of Inl e \<Rightarrow> Inl e | Inr xs \<Rightarrow> Inr (x # xs)))"

definition failed_to_load :: "exn \<Rightarrow> exn" where
  "failed_to_load e =
     (if exc_class_of e = InvalidMetadataError then e
      else Exn InvalidMetadataError ''Failed to load metadata: {}'' [AExn e])"

text \<open>The part of \<^verbatim>\<open>_load_metadata\<close> after \<^verbatim>\<open>json.loads\<close>: the version check and the
  construction of the entries, inside the \<^verbatim>\<open>try\<close>.\<close>

definition parse_manifest :: "json \<Rightarrow> FileMetadata list result" where
  "parse_manifest metadata_dict =
     (case metadata_dict of
        JObj kvs \<Rightarrow>
          if \<not> py_eq_int (get_or kvs ''version'' JNull) 1
          then Inl (Exn InvalidMetadataError ''Unsupported metadata version: {}''
                      [AJson (get_or kvs ''version'' JNull)])
          else
            (case py_iter (get_or kvs ''files'' (JArr [])) of
               Inl e \<Rightarrow> Inl (failed_to_load e)
             | Inr ms \<Rightarrow>
                 (case parse_entries ms of
                    Inl e \<Rightarrow> Inl (failed_to_load e)
                  | Inr metadata_list \<Rightarrow> Inr metadata_list))
      | _ \<Rightarrow> Inl (failed_to_load
                    (Exn (PyExc ''AttributeError'') ''object has no attribute get''
                       [AJson metadata_dict])))"

text \<open>\<^verbatim>\<open>FileProcessor._load_metadata\<close>: the library decodes and parses the plaintext
  (\<^verbatim>\<open>bytes.decode("utf-8")\<close>, then \<^verbatim>\<open>json.loads\<close>).\<close>

definition load_metadata ::
  "pylib \<Rightarrow> CryptoEngine \<Rightarrow> os_state \<Rightarrow> path \<Rightarrow> FileMetadata list result" where
  "load_metadata L E s input_path =
     (let metadata_path = input_path @ [METADATA_FILENAME] in
      if \<not> path_exists s metadata_path
      then Inl (Exn InvalidMetadataError ''Metadata file not found: {}''
                  [AStr (str_abs metadata_path)])
      else
        (case open_rb s metadata_path of
           Inl e \<Rightarrow> Inl (failed_to_load e)
         | Inr u \<Rightarrow>
             (let nonce = take NONCE_SIZE (content s metadata_path);
                  encrypted_metadata = drop NONCE_SIZE (content s metadata_path)
              in case decrypt_metadata E encrypted_metadata nonce of
                   Inl e \<Rightarrow> Inl (failed_to_load e)
                 | Inr metadata_bytes \<Rightarrow>
                     (case json_loads L metadata_bytes of
                        Inl e \<Rightarrow> Inl (failed_to_load e)
                      | Inr metadata_dict \<Rightarrow> parse_manifest metadata_dict))))"

definition failed_to_encrypt :: "pypath \<Rightarrow> exn \<Rightarrow> exn" where
  "failed_to_encrypt relative e =
     Exn FileProcessingError ''Failed to encrypt {}: {}'' [AStr (str_of relative), AExn e]"

text \<open>The body of the loop of \<^verbatim>\<open>encrypt_folder\<close> for one item: the state afterwards and the
  entry appended to \<^verbatim>\<open>metadata_list\<close>.\<close>

definition encrypt_item ::
  "CryptoEngine \<Rightarrow> path \<Rightarrow> path \<Rightarrow> os_state \<Rightarrow> path \<Rightarrow> os_state \<times> FileMetadata result" where
  "encrypt_item E input_path output_path s item_path =
     (case relative_to item_path input_path of
        Inl e \<Rightarrow> (s, Inl e)
      | Inr relative \<Rightarrow>
          if is_dir s item_path
          then
            (case stat s item_path of
               Inl e \<Rightarrow> (s, Inl e)
             | Inr st \<Rightarrow>
                 (s, Inr \<lparr>relative_path = JStr (str_of relative),
                          original_size = JInt 0,
                          encrypted_size = JInt 0,
                          is_directory = JBool True,
                          permissions = JInt (int (st_mode st))\<rparr>))
          else
            (let output_file_path =
                   join_under output_path (Path (str_of relative @ ENCRYPTED_EXTENSION))
             in case mkdir_parents s (butlast output_file_path) of
                  Inl e \<Rightarrow> (s, Inl e)
                | Inr s1 \<Rightarrow>
             (case stat s1 item_path of
                  Inl e \<Rightarrow> (s1, Inl e)
                | Inr st0 \<Rightarrow>
             (case open_rb s1 item_path of
                  Inl e \<Rightarrow> (s1, Inl (failed_to_encrypt relative e))
                | Inr u \<Rightarrow>
             (case open_wb s1 output_file_path of
                  Inl e \<Rightarrow> (s1, Inl (failed_to_encrypt relative e))
                | Inr s2 \<Rightarrow>
                    (let ad = encode_utf8 (str_of relative);
                         (written, r', outcome) =
                            encrypt_file E (random s2) (content s2 item_path) ad;
                         s3 = write_bytes (s2\<lparr>random := r'\<rparr>) output_file_path written
                     in case outcome of
                          Inl e \<Rightarrow> (s3, Inl (failed_to_encrypt relative e))
                        | Inr u \<Rightarrow>
                     (case stat s3 output_file_path of
                          Inl e \<Rightarrow> (s3, Inl (failed_to_encrypt relative e))
                        | Inr st1 \<Rightarrow>
                     (case stat s3 item_path of
                          Inl e \<Rightarrow> (s3, Inl (failed_to_encrypt relative e))
                        | Inr st2 \<Rightarrow>
                            (s3, Inr \<lparr>relative_path = JStr (str_of relative),
                                      original_size = JInt (int (st_size st0)),
                                      encrypted_size = JInt (int (st_size st1)),
                                      is_directory = JBool False,
                                      permissions = JInt (int (st_mode st2))\<rparr>)))))))))"

text \<open>The loop \<^verbatim>\<open>for idx, item_path in enumerate(all_items, 1)\<close> (no progress callback).\<close>

fun encrypt_items ::
  "CryptoEngine \<Rightarrow> path \<Rightarrow> path \<Rightarrow> os_state \<Rightarrow> path list \<Rightarrow>
     os_state \<times> FileMetadata list result" where
  "encrypt_items E input_path output_path s [] = (s, Inr [])"
| "encrypt_items E input_path output_path s (item_path # rest) =
     (case encrypt_item E input_path output_path s item_path of
        (s1, Inl e) \<Rightarrow> (s1, Inl e)
      | (s1, Inr metadata) \<Rightarrow>
          (case encrypt_items E input_path output_path s1 rest of
             (s2, Inl e) \<Rightarrow> (s2, Inl e)
           | (s2, Inr metadata_list) \<Rightarrow> (s2, Inr (metadata # metadata_list))))"

text \<open>\<^verbatim>\<open>FileProcessor.encrypt_folder\<close>\<close>

definition fp_encrypt_folder ::
  "pylib \<Rightarrow> CryptoEngine \<Rightarrow> os_state \<Rightarrow> path \<Rightarrow> path \<Rightarrow> os_state \<times> unit result" where
  "fp_encrypt_folder L E s input_path output_path =
     (if \<not> path_exists s input_path
      then (s, Inl (Exn FileProcessingError ''Input path does not exist: {}''
                      [AStr (str_abs input_path)]))
      else if \<not> is_dir s input_path
      then (s, Inl (Exn FileProcessingError ''Input path is not a directory: {}''
                      [AStr (str_abs input_path)]))
      else
        (case mkdir_parents s output_path of
           Inl e \<Rightarrow> (s, Inl e)
         | Inr s1 \<Rightarrow>
             (let all_items = collect_items s1 input_path in
              case encrypt_items E input_path output_path s1 all_items of
                (s2, Inl e) \<Rightarrow> (s2, Inl e)
              | (s2, Inr metadata_list) \<Rightarrow> save_metadata L E s2 output_path metadata_list)))"

definition failed_to_decrypt :: "pypath \<Rightarrow> exn \<Rightarrow> exn" where
  "failed_to_decrypt relative e =
     (if exc_class_of e = FileProcessingError then e
      else Exn FileProcessingError ''Failed to decrypt {}: {}'' [AStr (str_of relative), AExn e])"

text \<open>\<^verbatim>\<open>if metadata.permissions: try: os.chmod(...) except Exception: pass\<close>\<close>

definition restore_permissions :: "os_state \<Rightarrow> path \<Rightarrow> json \<Rightarrow> os_state" where
  "restore_permissions s p perms =
     (if truthy perms
      then (case os_chmod s p perms of Inl e \<Rightarrow> s | Inr s' \<Rightarrow> s')
      else s)"

text \<open>The body of the loop of \<^verbatim>\<open>decrypt_folder\<close> for one manifest entry.\<close>

definition decrypt_item ::
  "CryptoEngine \<Rightarrow> path \<Rightarrow> path \<Rightarrow> os_state \<Rightarrow> FileMetadata \<Rightarrow> os_state \<times> unit result" where
  "decrypt_item E input_path output_path s metadata =
     (case relative_path metadata of
        JStr rp \<Rightarrow>
          (let relative = Path rp in
           if truthy (is_directory metadata)
           then
             (let dir_path = join_under output_path relative in
              case mkdir_parents s dir_path of
                Inl e \<Rightarrow> (s, Inl e)
              | Inr s1 \<Rightarrow> (restore_permissions s1 dir_path (permissions metadata), Inr ()))
           else
             (let encrypted_file_path =
                    join_under input_path (Path (str_of relative @ ENCRYPTED_EXTENSION));
                  output_file_path = join_under output_path relative
              in case mkdir_parents s (butlast output_file_path) of
                   Inl e \<Rightarrow> (s, Inl e)
                 | Inr s1 \<Rightarrow>
                     if \<not> path_exists s1 encrypted_file_path
                     then (s1, Inl (Exn FileProcessingError ''Encrypted file not found: {}''
                                      [AStr (str_abs encrypted_file_path)]))
                     else
              (case open_rb s1 encrypted_file_path of
                   Inl e \<Rightarrow> (s1, Inl (failed_to_decrypt relative e))
                 | Inr u \<Rightarrow>
              (case open_wb s1 output_file_path of
                   Inl e \<Rightarrow> (s1, Inl (failed_to_decrypt relative e))
                 | Inr s2 \<Rightarrow>
                     (let ad = encode_utf8 (str_of relative);
                          (written, outcome) =
                             decrypt_file E (content s2 encrypted_file_path) ad;
                          s3 = write_bytes s2 output_file_path written
                      in case outcome of
                           Inl e \<Rightarrow> (s3, Inl (failed_to_decrypt relative e))
                         | Inr u \<Rightarrow>
                      (case stat s3 output_file_path of
                           Inl e \<Rightarrow> (s3, Inl (failed_to_decrypt relative e))
                         | Inr st \<Rightarrow>
                             if \<not> py_eq_int (original_size metadata) (int (st_size st))
                             then (s3, Inl (Exn FileProcessingError
                                              ''Size mismatch for {}: expected {}, got {}''
                                              [AStr (str_of relative),
                                               AJson (original_size metadata),
                                               ANat (st_size st)]))
                             else (restore_permissions s3 output_file_path
                                     (permissions metadata), Inr ())))))))
      | v \<Rightarrow> (s, Inl (Exn (PyExc ''TypeError'')
                         ''expected str, bytes or os.PathLike object'' [AJson v])))"

text \<open>The loop \<^verbatim>\<open>for idx, metadata in enumerate(metadata_list, 1)\<close>.\<close>

fun decrypt_items ::
  "CryptoEngine \<Rightarrow> path \<Rightarrow> path \<Rightarrow> os_state \<Rightarrow> FileMetadata list \<Rightarrow> os_state \<times> unit result" where
  "decrypt_items E input_path output_path s [] = (s, Inr ())"
| "decrypt_items E input_path output_path s (metadata # rest) =
     (case decrypt_item E input_path output_path s metadata of
        (s1, Inl e) \<Rightarrow> (s1, Inl e)
      | (s1, Inr u) \<Rightarrow> decrypt_items E input_path output_path s1 rest)"


section \<open>services\<close>

text \<open>The paths given to the services are taken as already resolved
  (\<^verbatim>\<open>Path(p).resolve()\<close>).\<close>

record EncryptService =
  enc_key_derivation :: KeyDerivation
  check_password_strength :: bool

definition new_EncryptService :: "pylib \<Rightarrow> bool \<Rightarrow> bool \<Rightarrow> EncryptService" where
  "new_EncryptService L use verify =
     \<lparr>enc_key_derivation = new_KeyDerivation L use, check_password_strength = verify\<rparr>"

definition reraise_encrypt :: "exn \<Rightarrow> exn" where
  "reraise_encrypt e =
     (if exc_class_of e \<in> {InvalidPasswordError, EncryptionError, FileProcessingError} then e
      else encryption_failed e)"

text \<open>\<^verbatim>\<open>EncryptService.encrypt_folder\<close>\<close>

definition encrypt_folder ::
  "pylib \<Rightarrow> EncryptService \<Rightarrow> os_state \<Rightarrow> path \<Rightarrow> path \<Rightarrow> string \<Rightarrow> os_state \<times> unit result" where
  "encrypt_folder L svc s input_path output_path password =
     (if check_password_strength svc \<and> \<not> fst (verify_password_strength L password)
      then (s, Inl (Exn InvalidPasswordError (snd (verify_password_strength L password)) []))
      else
        (let (salt, r') = generate_salt (random s);
             s0 = s\<lparr>random := r'\<rparr>
         in case derive_key L (enc_key_derivation svc) password salt of
              Inl e \<Rightarrow> (s0, Inl (reraise_encrypt e))
            | Inr key \<Rightarrow>
         (case new_CryptoEngine L key of
              Inl e \<Rightarrow> (s0, Inl (reraise_encrypt e))
            | Inr crypto_engine \<Rightarrow>
         (case fp_encrypt_folder L crypto_engine s0 input_path output_path of
              (s1, Inl e) \<Rightarrow> (s1, Inl (reraise_encrypt e))
            | (s1, Inr u) \<Rightarrow>
                (let salt_file = output_path @ [''.salt''] in
                 case open_wb s1 salt_file of
                   Inl e \<Rightarrow> (s1, Inl (reraise_encrypt e))
                 | Inr s2 \<Rightarrow> (write_bytes s2 salt_file salt, Inr ()))))))"





section \<open>Notions used to state the properties\<close>

text \<open>Byte \<open>k\<close> of the little-endian encoding of an unsigned 64-bit integer.\<close>

definition u64_byte :: "64 word \<Rightarrow> nat \<Rightarrow> byte" where
  "u64_byte w k = ucast (drop_bit (8 * k) w)"

text \<open>The nonce of chunk \<open>i\<close> as the specification words it: the first four bytes of the
  base nonce, then its last eight bytes with the little-endian bytes of \<open>i\<close> XORed in.\<close>

definition chunk_nonce :: "bytes \<Rightarrow> nat \<Rightarrow> bytes" where
  "chunk_nonce b i =
     take 4 b @ map2 (XOR) (drop 4 b) (map (u64_byte (word_of_nat i)) [0..<8])"

text \<open>The number of chunks of a file of \<open>n\<close> bytes, rounded up, and chunk \<open>j\<close> of an input.\<close>

definition chunk_count :: "nat \<Rightarrow> nat" where
  "chunk_count n = (n + (CHUNK_SIZE - 1)) div CHUNK_SIZE"

definition chunk_at :: "bytes \<Rightarrow> nat \<Rightarrow> bytes" where
  "chunk_at input j = take CHUNK_SIZE (drop (j * CHUNK_SIZE) input)"

text \<open>The layout of an encrypted file: the header, then one record per chunk.\<close>

definition file_header :: "bytes \<Rightarrow> nat \<Rightarrow> bytes" where
  "file_header b n = [1] @ b @ le_bytes 8 n"

definition chunk_record :: "bytes \<Rightarrow> bytes" where
  "chunk_record c = le_bytes 4 (length c) @ c"

text \<open>Opening a sequence of ciphertext chunks, chunk \<open>i\<close> first: the plaintext recovered and
  whether every chunk was authenticated.\<close>

fun open_records :: "AESGCM \<Rightarrow> bytes \<Rightarrow> bytes \<Rightarrow> nat \<Rightarrow> bytes list \<Rightarrow> bytes \<times> bool" where
  "open_records A b ad i [] = ([], True)"
| "open_records A b ad i (c # cs) =
     (case aes_decrypt A (chunk_nonce b i) c (ad @ le_bytes 8 i) of
        Inl e \<Rightarrow> ([], False)
      | Inr d \<Rightarrow> (let (w, ok) = open_records A b ad (i + 1) cs in (d @ w, ok)))"

text \<open>What is assumed of AES-GCM where a property needs it: sealing under a 12-byte nonce
  succeeds and appends a 16-byte tag, and what was sealed opens under the same nonce and
  associated data.\<close>

definition aes_seals :: "AESGCM \<Rightarrow> bool" where
  "aes_seals A = (\<forall>nonce d ad. length nonce = NONCE_SIZE \<longrightarrow>
       (\<exists>c. aes_encrypt A nonce d ad = Inr c \<and> length c = length d + TAG_SIZE))"

definition aes_opens :: "AESGCM \<Rightarrow> bool" where
  "aes_opens A = (\<forall>nonce d ad c. aes_encrypt A nonce d ad = Inr c \<longrightarrow>
       aes_decrypt A nonce c ad = Inr d)"

subsection \<open>A small instance of the library, to run the model on concrete inputs\<close>

text \<open>The stand-in for AES-GCM appends a tag computed from key, nonce and associated data
  and, like the library, refuses a nonce outside 8 to 128 bytes and a ciphertext shorter than
  the tag.\<close>

definition demo_tag :: "bytes \<Rightarrow> bytes \<Rightarrow> bytes \<Rightarrow> bytes" where
  "demo_tag key nonce ad = take 16 (key @ nonce @ ad @ replicate 16 0)"

definition InvalidTag :: exn where
  "InvalidTag = Exn (PyExc ''cryptography.exceptions.InvalidTag'') [] []"

definition demo_AESGCM :: "bytes \<Rightarrow> AESGCM" where
  "demo_AESGCM key =
     \<lparr>aes_encrypt = (\<lambda>nonce d ad.
        if length nonce < 8 \<or> 128 < length nonce
        then Inl (Exn (PyExc ''ValueError'') ''Nonce must be between 8 and 128 bytes'' [])
        else Inr (d @ demo_tag key nonce ad)),
      aes_decrypt = (\<lambda>nonce c ad.
        if length nonce < 8 \<or> 128 < length nonce
        then Inl (Exn (PyExc ''ValueError'') ''Nonce must be between 8 and 128 bytes'' [])
        else if length c < 16 then Inl InvalidTag
        else if drop (length c - 16) c = demo_tag key nonce ad
        then Inr (take (length c - 16) c)
        else Inl InvalidTag)\<rparr>"

text \<open>The stand-in for \<^verbatim>\<open>json.loads\<close> knows two texts: the empty object \<^verbatim>\<open>{}\<close> and the manifest
  \<^verbatim>\<open>{"version": 1, "files": [{"relative_path": "../x", "original_size": 0, "encrypted_size": 21, "is_directory": false, "permissions": null}]}\<close>,
  given here by its bytes.\<close>

definition escape_manifest_text :: bytes where
  "escape_manifest_text =
     [123, 34, 118, 101, 114, 115, 105, 111, 110, 34, 58, 32, 49, 44, 32, 34, 102,
      105, 108, 101, 115, 34, 58, 32, 91, 123, 34, 114, 101, 108, 97, 116, 105, 118,
      101, 95, 112, 97, 116, 104, 34, 58, 32, 34, 46, 46, 47, 120, 34, 44, 32, 34,
      111, 114, 105, 103, 105, 110, 97, 108, 95, 115, 105, 122, 101, 34, 58, 32, 48,
      44, 32, 34, 101, 110, 99, 114, 121, 112, 116, 101, 100, 95, 115, 105, 122, 101,
      34, 58, 32, 50, 49, 44, 32, 34, 105, 115, 95, 100, 105, 114, 101, 99, 116, 111,
      114, 121, 34, 58, 32, 102, 97, 108, 115, 101, 44, 32, 34, 112, 101, 114, 109,
      105, 115, 115, 105, 111, 110, 115, 34, 58, 32, 110, 117, 108, 108, 125, 93,
      125]"

definition escape_manifest :: json where
  "escape_manifest =
     JObj [(''version'', JInt 1),
           (''files'', JArr [JObj [(''relative_path'', JStr ''../x''),
                                   (''original_size'', JInt 0),
                                   (''encrypted_size'', JInt 21),
                                   (''is_directory'', JBool False),
                                   (''permissions'', JNull)]])]"

definition demo_json_loads :: "bytes \<Rightarrow> json result" where
  "demo_json_loads b =
     (if b = [123, 125] then Inr (JObj [])
      else if b = escape_manifest_text then Inr escape_manifest
      else Inl (Exn (PyExc ''json.JSONDecodeError'') ''Expecting value'' []))"

definition demo_lib :: pylib where
  "demo_lib =
     \<lparr>new_AESGCM = demo_AESGCM,
      pbkdf2_hmac_sha256 =
        (\<lambda>len iterations salt password. take len (password @ salt @ replicate len 0)),
      argon2_importable = False,
      hash_secret_raw = (\<lambda>secret salt time_cost memory_cost parallelism len.
                           take len (salt @ secret @ replicate len 0)),
      json_dumps = (\<lambda>j. encode_utf8 ''x''),
      json_loads = demo_json_loads,
      isupper = (\<lambda>c. c \<in> set ''ABCDEFGHIJKLMNOPQRSTUVWXYZ''),
      islower = (\<lambda>c. c \<in> set ''abcdefghijklmnopqrstuvwxyz''),
      isdigit = (\<lambda>c. c \<in> set ''0123456789''),
      isalnum = (\<lambda>c. c \<in> set
        ''ABCDEFGHIJKLMNOPQRSTUVWXYZabcdefghijklmnopqrstuvwxyz0123456789'')\<rparr>"

definition zero_rng :: rng where
  "zero_rng = (\<lambda>i. 0)"

text \<open>An engine over the stand-in cipher, a thirteen-byte input and a base nonce.\<close>

definition demo_engine :: CryptoEngine where
  "demo_engine = \<lparr>aesgcm = demo_AESGCM (replicate 32 7)\<rparr>"

definition hello_world :: bytes where
  "hello_world = encode_utf8 ''Hello, World!''"

definition demo_nonce :: bytes where
  "demo_nonce = [0, 1, 2, 3, 4, 5, 6, 7, 8, 9, 10, 11]"

text \<open>A system holding one directory, and a manifest entry for a directory \<^verbatim>\<open>d\<close> with given
  permissions.\<close>

definition demo_os :: os_state where
  "demo_os = \<lparr>nodes = [([''enc''], Dir 493)], dir_mode = 493, file_mode = 420,
               random = zero_rng\<rparr>"

definition dir_entry :: "json \<Rightarrow> FileMetadata" where
  "dir_entry perms =
     \<lparr>relative_path = JStr ''d'', original_size = JInt 0, encrypted_size = JInt 0,
      is_directory = JBool True, permissions = perms\<rparr>"

text \<open>The shape \<^verbatim>\<open>FileMetadata(**m)\<close> accepts: a mapping whose keys are fields of the
  dataclass and include the four fields without default.\<close>

definition entry_shape_ok :: "json \<Rightarrow> bool" where
  "entry_shape_ok m =
     (case m of
        JObj kvs \<Rightarrow> set (map fst kvs) \<subseteq> set field_names \<and>
                    set required_fields \<subseteq> set (map fst kvs)
      | _ \<Rightarrow> False)"

text \<open>A manifest entry for a file with a given path, as JSON and as parsed, and a system
  whose encrypted folder holds a manifest sealed by the stand-in cipher.\<close>

definition file_entry :: "string \<Rightarrow> json" where
  "file_entry rp =
     JObj [(''relative_path'', JStr rp), (''original_size'', JInt 0),
           (''encrypted_size'', JInt 21), (''is_directory'', JBool False),
           (''permissions'', JNull)]"

definition file_meta :: "string \<Rightarrow> FileMetadata" where
  "file_meta rp =
     \<lparr>relative_path = JStr rp, original_size = JInt 0, encrypted_size = JInt 21,
      is_directory = JBool False, permissions = JNull\<rparr>"

definition manifest_os :: "bytes \<Rightarrow> os_state" where
  "manifest_os body =
     \<lparr>nodes = [([''enc''], Dir 493),
               ([''enc'', ''.folder_crypto_metadata.enc''],
                File 420 (demo_nonce @ body @ replicate 16 7))],
      dir_mode = 493, file_mode = 420, random = zero_rng\<rparr>"


section \<open>The chunk cipher\<close>

lemma length_le_bytes [simp]: "length (le_bytes k n) = k"
  by (induction k arbitrary: n) auto

lemma le_bytes_nth: "j < k \<Longrightarrow> le_bytes k n ! j = word_of_nat (n div 256 ^ j)"
proof (induction k arbitrary: n j)
  case 0 then show ?case by simp
next
  case (Suc k)
  show ?case
  proof (cases j)
    case 0 then show ?thesis by simp
  next
    case (Suc j')
    with Suc.prems have "j' < k" by simp
    from Suc.IH[OF this, of "n div 256"] Suc show ?thesis
      by (simp add: div_mult2_eq)
  qed
qed

lemma le_nat_le_bytes: "le_nat (le_bytes k n) = n mod 256 ^ k"
proof (induction k arbitrary: n)
  case 0 then show ?case by simp
next
  case (Suc k)
  have "unat (word_of_nat n :: byte) = n mod 256" by (simp add: unat_of_nat)
  then show ?case using Suc[of "n div 256"]
    by (simp add: mod_mult2_eq)
qed

lemma derive_loop_spec:
  "i \<le> 8 \<Longrightarrow> 8 \<le> length n \<Longrightarrow>
   \<exists>r. derive_loop n cb i = Inr r \<and> length r = length n \<and>
     (\<forall>p < length n. r ! p = (if length n - 8 + i \<le> p then n ! p XOR cb ! (p - (length n - 8)) else n ! p))"
proof (induction n cb i rule: derive_loop.induct)
  case (1 nonce cb i)
  show ?case
  proof (cases "i < 8")
    case False
    with 1 show ?thesis by (simp add: derive_loop.simps)
  next
    case True
    let ?n' = "nonce[length nonce - (8 - i) := (nonce ! (length nonce - (8 - i))) XOR cb ! i]"
    have x: "xor_from_end nonce (8 - i) (cb ! i) = Inr ?n'"
      using True 1 by (simp add: xor_from_end_def)
    from "1.IH"[OF True x] True 1
    obtain r where r: "derive_loop ?n' cb (i + 1) = Inr r" "length r = length nonce"
      and rp: "\<forall>p < length nonce. r ! p = (if length ?n' - 8 + (i + 1) \<le> p then ?n' ! p XOR cb ! (p - (length ?n' - 8)) else ?n' ! p)"
      by auto
    have "derive_loop nonce cb i = Inr r"
      using True x r by (subst derive_loop.simps) simp
    moreover have "\<forall>p < length nonce. r ! p = (if length nonce - 8 + i \<le> p then nonce ! p XOR cb ! (p - (length nonce - 8)) else nonce ! p)"
    proof (intro allI impI)
      fix p assume p: "p < length nonce"
      with rp have e: "r ! p = (if length ?n' - 8 + (i + 1) \<le> p then ?n' ! p XOR cb ! (p - (length ?n' - 8)) else ?n' ! p)" by blast
      show "r ! p = (if length nonce - 8 + i \<le> p then nonce ! p XOR cb ! (p - (length nonce - 8)) else nonce ! p)"
      proof (cases "p = length nonce - 8 + i")
        case True
        then have "p = length nonce - (8 - i)" using 1 \<open>i < 8\<close> by simp
        with e True p show ?thesis using 1 \<open>i < 8\<close> by (simp add: nth_list_update)
      next
        case False
        then have "p \<noteq> length nonce - (8 - i)" using 1 \<open>i < 8\<close> by simp
        with e False p show ?thesis using 1 \<open>i < 8\<close> by (auto simp: nth_list_update)
      qed
    qed
    ultimately show ?thesis using r by blast
  qed
qed

lemma p256: "(256::nat) ^ k = 2 ^ (8 * k)"
  by (simp add: power_mult)

lemma u64_byte_eq: "k < 8 \<Longrightarrow> u64_byte (word_of_nat i) k = word_of_nat (i div 256 ^ k)"
  unfolding u64_byte_def p256 drop_bit_eq_div[symmetric]
  apply (rule bit_word_eqI)
  apply (auto simp: bit_simps)
  done

lemma chunk_count_0 [simp]: "chunk_count 0 = 0"
  by (simp add: chunk_count_def CHUNK_SIZE_def)

lemma chunk_count_pos: "0 < n \<Longrightarrow> chunk_count n = Suc ((n - 1) div CHUNK_SIZE)"
proof -
  assume "0 < n"
  then have "n + (CHUNK_SIZE - 1) = (n - 1) + CHUNK_SIZE"
    by (simp add: CHUNK_SIZE_def)
  then show ?thesis
    by (simp add: chunk_count_def CHUNK_SIZE_def)
qed

lemma chunk_count_step:
  "0 < n \<Longrightarrow> chunk_count n = Suc (chunk_count (n - CHUNK_SIZE))"
proof (cases "n \<le> CHUNK_SIZE")
  case True
  assume "0 < n"
  with True show ?thesis by (simp add: chunk_count_pos)
next
  case False
  assume "0 < n"
  from False obtain m where m: "n = Suc m + CHUNK_SIZE"
    by (metis add.commute add_Suc_right less_imp_Suc_add not_le)
  then show ?thesis
    by (simp add: chunk_count_pos CHUNK_SIZE_def)
qed

lemma chunk_count_le: "chunk_count n \<le> n"
proof (cases "n = 0")
  case True then show ?thesis by simp
next
  case False
  then have "chunk_count n = Suc ((n - 1) div CHUNK_SIZE)" by (simp add: chunk_count_pos)
  moreover have "(n - 1) div CHUNK_SIZE \<le> n - 1" by (rule div_le_dividend)
  ultimately show ?thesis using False by linarith
qed

lemma pack_Q_ok: "n < 2 ^ 64 \<Longrightarrow> pack_Q n = Inr (le_bytes 8 n)"
  by (simp add: pack_Q_def)

lemma pack_I_ok: "n < 2 ^ 32 \<Longrightarrow> pack_I n = Inr (le_bytes 4 n)"
  by (simp add: pack_I_def)

lemma derive_chunk_nonce_eq:
  assumes b: "length b = 12" and i: "i < 2 ^ 64"
  shows "derive_chunk_nonce b i = Inr (chunk_nonce b i)"
proof -
  from derive_loop_spec[of 0 b "le_bytes 8 i"] b
  obtain r where r: "derive_loop b (le_bytes 8 i) 0 = Inr r" "length r = 12"
    and rp: "\<forall>p < 12. r ! p = (if 4 \<le> p then b ! p XOR le_bytes 8 i ! (p - 4) else b ! p)"
    by auto
  have "r = chunk_nonce b i"
  proof (rule nth_equalityI)
    show "length r = length (chunk_nonce b i)"
      using r b by (simp add: chunk_nonce_def)
  next
    fix p assume "p < length r"
    then have p: "p < 12" using r by simp
    show "r ! p = chunk_nonce b i ! p"
    proof (cases "4 \<le> p")
      case False
      with rp p b show ?thesis by (simp add: chunk_nonce_def nth_append)
    next
      case True
      then have q: "p - 4 < 8" using p by simp
      have "le_bytes 8 i ! (p - 4) = u64_byte (word_of_nat i) (p - 4)"
        using q by (simp add: le_bytes_nth u64_byte_eq)
      with rp p b True q show ?thesis
        by (simp add: chunk_nonce_def nth_append)
    qed
  qed
  with r i show ?thesis by (simp add: derive_chunk_nonce_def pack_Q_ok)
qed

lemma length_chunk_nonce [simp]: "length b = 12 \<Longrightarrow> length (chunk_nonce b i) = 12"
  by (simp add: chunk_nonce_def)

lemma le_nat_le_bytes4: "n < 2 ^ 32 \<Longrightarrow> le_nat (le_bytes 4 n) = n"
  by (simp add: le_nat_le_bytes)

lemma le_nat_le_bytes8: "n < 2 ^ 64 \<Longrightarrow> le_nat (le_bytes 8 n) = n"
  by (simp add: le_nat_le_bytes)

lemma decrypt_chunks_record:
  assumes b: "length b = 12" and i: "i < 2 ^ 64" and c: "length c < 2 ^ 32"
  shows "decrypt_chunks E b ad i tot (chunk_record c @ rest) =
     (case aes_decrypt (aesgcm E) (chunk_nonce b i) c (ad @ le_bytes 8 i) of
        Inl e \<Rightarrow> ([], Inl auth_failed)
      | Inr d \<Rightarrow> (let (w, r) = decrypt_chunks E b ad (i + 1) (tot + length d) rest
                  in (d @ w, r)))"
proof -
  have t: "take 4 (chunk_record c @ rest) = le_bytes 4 (length c)"
    by (simp add: chunk_record_def)
  have d: "drop 4 (chunk_record c @ rest) = c @ rest"
    by (simp add: chunk_record_def)
  have u: "unpack (le_bytes 4 (length c)) = length c"
    using c by (simp add: unpack_def le_nat_le_bytes4)
  have ne: "le_bytes 4 (length c) \<noteq> []"
    by (metis length_le_bytes length_0_conv zero_neq_numeral)
  have dd: "drop (length c) (c @ rest) = rest" by simp
  have tk: "take (length c) (c @ rest) = c" by simp
  show ?thesis
    apply (subst decrypt_chunks.simps)
    apply (simp only: t d u dd tk Let_def)
    using ne apply (simp add: pack_Q_ok[OF i] derive_chunk_nonce_eq[OF b i])
    done
qed

lemma decrypt_chunks_Nil:
  "decrypt_chunks E b ad i tot [] = ([], Inr tot)"
  by (subst decrypt_chunks.simps) simp

lemma decrypt_chunks_records:
  assumes b: "length b = 12"
  shows "i + length cs \<le> 2 ^ 64 \<Longrightarrow> \<forall>c \<in> set cs. length c < 2 ^ 32 \<Longrightarrow>
    decrypt_chunks E b ad i tot (concat (map chunk_record cs)) =
      (case open_records (aesgcm E) b ad i cs of
         (w, ok) \<Rightarrow> (w, if ok then Inr (tot + length w) else Inl auth_failed))"
proof (induction cs arbitrary: i tot)
  case Nil
  then show ?case by (simp add: decrypt_chunks_Nil)
next
  case (Cons c cs)
  then have i: "i < 2 ^ 64" and c: "length c < 2 ^ 32" by simp_all
  have IH: "\<And>tot. decrypt_chunks E b ad (Suc i) tot (concat (map chunk_record cs)) =
      (case open_records (aesgcm E) b ad (Suc i) cs of
         (w, ok) \<Rightarrow> (w, if ok then Inr (tot + length w) else Inl auth_failed))"
    using Cons.IH[of "Suc i"] Cons.prems by simp
  show ?case
  proof (cases "aes_decrypt (aesgcm E) (chunk_nonce b i) c (ad @ le_bytes 8 i)")
    case (Inl e)
    then show ?thesis by (simp add: decrypt_chunks_record[OF b i c])
  next
    case (Inr d)
    obtain w ok where o: "open_records (aesgcm E) b ad (Suc i) cs = (w, ok)"
      by (cases "open_records (aesgcm E) b ad (Suc i) cs") auto
    show ?thesis using Inr o by (simp add: decrypt_chunks_record[OF b i c] IH)
  qed
qed

lemma chunk_at_0: "chunk_at input 0 = take CHUNK_SIZE input"
  by (simp add: chunk_at_def)

lemma chunk_at_Suc: "chunk_at input (Suc j) = chunk_at (drop CHUNK_SIZE input) j"
  by (simp add: chunk_at_def add.commute)

lemma length_chunk_record [simp]: "length (chunk_record c) = 4 + length c"
  by (simp add: chunk_record_def)

lemma encrypt_chunks_records:
  "aes_seals (aesgcm E) \<Longrightarrow> length b = 12 \<Longrightarrow> i + chunk_count (length input) \<le> 2 ^ 64 \<Longrightarrow>
   \<exists>cs. length cs = chunk_count (length input) \<and>
     (\<forall>j<length cs. aes_encrypt (aesgcm E) (chunk_nonce b (i + j)) (chunk_at input j)
                        (ad @ le_bytes 8 (i + j)) = Inr (cs ! j)) \<and>
     (\<forall>c\<in>set cs. length c \<le> CHUNK_SIZE + TAG_SIZE) \<and>
     length (concat (map chunk_record cs)) =
       chunk_count (length input) * (4 + TAG_SIZE) + length input \<and>
     encrypt_chunks E b ad i input = (concat (map chunk_record cs), None)"
proof (induction E b ad i input rule: encrypt_chunks.induct)
  case (1 E nonce ad cn input)
  show ?case
  proof (cases "input = []")
    case True
    then show ?thesis
      by (subst encrypt_chunks.simps) (simp add: CHUNK_SIZE_def)
  next
    case False
    let ?chunk = "take CHUNK_SIZE input"
    have ne: "?chunk \<noteq> []" using False by (simp add: CHUNK_SIZE_def)
    have pos: "0 < length input" using False by simp
    have cc: "chunk_count (length input) = Suc (chunk_count (length (drop CHUNK_SIZE input)))"
      using chunk_count_step[OF pos] by simp
    have cn: "cn < 2 ^ 64" using "1.prems"(3) cc by simp
    have pq: "pack_Q cn = Inr (le_bytes 8 cn)" using cn by (rule pack_Q_ok)
    have dn: "derive_chunk_nonce nonce cn = Inr (chunk_nonce nonce cn)"
      using "1.prems"(2) cn by (rule derive_chunk_nonce_eq)
    from "1.prems"(1) "1.prems"(2)
    obtain c where c: "aes_encrypt (aesgcm E) (chunk_nonce nonce cn) ?chunk (ad @ le_bytes 8 cn) = Inr c"
      and lc: "length c = length ?chunk + TAG_SIZE"
      unfolding aes_seals_def NONCE_SIZE_def by (metis length_chunk_nonce)
    have lc': "length c \<le> CHUNK_SIZE + TAG_SIZE" using lc by simp
    then have "length c < 2 ^ 32" by (simp add: CHUNK_SIZE_def TAG_SIZE_def)
    then have pi: "pack_I (length c) = Inr (le_bytes 4 (length c))" by (rule pack_I_ok)
    have "cn + 1 + chunk_count (length (drop CHUNK_SIZE input)) \<le> 2 ^ 64"
      using "1.prems"(3) cc by simp
    from "1.IH"[OF refl ne pq dn c pi "1.prems"(1) "1.prems"(2) this]
    obtain cs where l: "length cs = chunk_count (length (drop CHUNK_SIZE input))"
      and s: "\<forall>j<length cs. aes_encrypt (aesgcm E) (chunk_nonce nonce (cn + 1 + j))
                 (chunk_at (drop CHUNK_SIZE input) j) (ad @ le_bytes 8 (cn + 1 + j)) = Inr (cs ! j)"
      and b: "\<forall>c\<in>set cs. length c \<le> CHUNK_SIZE + TAG_SIZE"
      and n: "length (concat (map chunk_record cs)) =
                chunk_count (length (drop CHUNK_SIZE input)) * (4 + TAG_SIZE) + length (drop CHUNK_SIZE input)"
      and e: "encrypt_chunks E nonce ad (cn + 1) (drop CHUNK_SIZE input) = (concat (map chunk_record cs), None)"
      by blast
    have 1: "length (c # cs) = chunk_count (length input)" using l cc by simp
    have 2: "\<forall>j<length (c # cs). aes_encrypt (aesgcm E) (chunk_nonce nonce (cn + j)) (chunk_at input j)
                        (ad @ le_bytes 8 (cn + j)) = Inr ((c # cs) ! j)"
    proof (intro allI impI)
      fix j assume j: "j < length (c # cs)"
      show "aes_encrypt (aesgcm E) (chunk_nonce nonce (cn + j)) (chunk_at input j)
                        (ad @ le_bytes 8 (cn + j)) = Inr ((c # cs) ! j)"
      proof (cases j)
        case 0
        then show ?thesis using c by (simp add: chunk_at_0)
      next
        case (Suc j')
        then have "j' < length cs" using j by simp
        with s have "aes_encrypt (aesgcm E) (chunk_nonce nonce (cn + 1 + j'))
                 (chunk_at (drop CHUNK_SIZE input) j') (ad @ le_bytes 8 (cn + 1 + j')) = Inr (cs ! j')"
          by blast
        then show ?thesis using Suc by (simp add: chunk_at_Suc)
      qed
    qed
    have 3: "\<forall>c\<in>set (c # cs). length c \<le> CHUNK_SIZE + TAG_SIZE" using b lc' by simp
    have "length ?chunk + length (drop CHUNK_SIZE input) = length input"
      by (metis append_take_drop_id length_append)
    then have 4: "length (concat (map chunk_record (c # cs))) =
       chunk_count (length input) * (4 + TAG_SIZE) + length input"
      using n lc cc by simp
    have 5: "encrypt_chunks E nonce ad cn input = (concat (map chunk_record (c # cs)), None)"
      apply (subst encrypt_chunks.simps)
      using ne pq dn c pi e by (simp add: chunk_record_def)
    from 1 2 3 4 5 show ?thesis by blast
  qed
qed

lemma open_sealed:
  "aes_opens A \<Longrightarrow> length cs = chunk_count (length input) \<Longrightarrow>
   (\<forall>j<length cs. aes_encrypt A (chunk_nonce b (i + j)) (chunk_at input j)
                        (ad @ le_bytes 8 (i + j)) = Inr (cs ! j)) \<Longrightarrow>
   open_records A b ad i cs = (input, True)"
proof (induction cs arbitrary: i input)
  case Nil
  then have "input = []"
    by (metis chunk_count_pos length_greater_0_conv list.size(3) nat.distinct(1))
  then show ?case by simp
next
  case (Cons c cs)
  have ne: "input \<noteq> []" using Cons.prems(2) by auto
  then have pos: "0 < length input" by simp
  have l: "length cs = chunk_count (length (drop CHUNK_SIZE input))"
    using Cons.prems(2) chunk_count_step[OF pos] by simp
  have c0: "aes_encrypt A (chunk_nonce b i) (take CHUNK_SIZE input) (ad @ le_bytes 8 i) = Inr c"
    using Cons.prems(3)[rule_format, of 0] by (simp add: chunk_at_0)
  then have d0: "aes_decrypt A (chunk_nonce b i) c (ad @ le_bytes 8 i) = Inr (take CHUNK_SIZE input)"
    using Cons.prems(1) unfolding aes_opens_def by blast
  have s: "\<forall>j<length cs. aes_encrypt A (chunk_nonce b (Suc i + j)) (chunk_at (drop CHUNK_SIZE input) j)
                        (ad @ le_bytes 8 (Suc i + j)) = Inr (cs ! j)"
  proof (intro allI impI)
    fix j assume "j < length cs"
    then have "Suc j < length (c # cs)" by simp
    from Cons.prems(3)[rule_format, OF this] show "aes_encrypt A (chunk_nonce b (Suc i + j)) (chunk_at (drop CHUNK_SIZE input) j)
                        (ad @ le_bytes 8 (Suc i + j)) = Inr (cs ! j)"
      by (simp add: chunk_at_Suc)
  qed
  from Cons.IH[OF Cons.prems(1) l s]
  have "open_records A b ad (Suc i) cs = (drop CHUNK_SIZE input, True)" .
  with d0 show ?case by simp
qed

lemma length_demo_tag [simp]: "length (demo_tag k n ad) = 16"
  by (simp add: demo_tag_def)

lemma demo_seals: "aes_seals (demo_AESGCM k)"
  by (simp add: aes_seals_def demo_AESGCM_def NONCE_SIZE_def TAG_SIZE_def)

lemma demo_opens: "aes_opens (demo_AESGCM k)"
  by (auto simp: aes_opens_def demo_AESGCM_def split: if_splits)

lemma length_generate_nonce: "length (fst (generate_nonce r)) = 12"
  by (simp add: generate_nonce_def urandom_def NONCE_SIZE_def)

lemma pack_B_VERSION: "pack_B VERSION = Inr [1]"
  by (simp add: pack_B_def VERSION_def)

lemma encrypt_file_records:
  assumes A: "aes_seals (aesgcm E)" and n: "length input < 2 ^ 64"
    and g: "generate_nonce r = (b, r')"
  shows "\<exists>cs. length cs = chunk_count (length input) \<and>
     (\<forall>j<length cs. aes_encrypt (aesgcm E) (chunk_nonce b j) (chunk_at input j)
                        (ad @ le_bytes 8 j) = Inr (cs ! j)) \<and>
     (\<forall>c\<in>set cs. length c \<le> CHUNK_SIZE + TAG_SIZE) \<and>
     length (concat (map chunk_record cs)) =
       chunk_count (length input) * (4 + TAG_SIZE) + length input \<and>
     encrypt_file E r input ad =
       (file_header b (length input) @ concat (map chunk_record cs), r', Inr ())"
proof -
  have b: "length b = 12" using length_generate_nonce[of r] g by simp
  have "chunk_count (length input) \<le> length input" by (rule chunk_count_le)
  then have "0 + chunk_count (length input) \<le> 2 ^ 64" using n by simp
  from encrypt_chunks_records[OF A b this, of ad]
  obtain cs where l: "length cs = chunk_count (length input)"
     and s: "\<forall>j<length cs. aes_encrypt (aesgcm E) (chunk_nonce b (0 + j)) (chunk_at input j)
                        (ad @ le_bytes 8 (0 + j)) = Inr (cs ! j)"
     and bd: "\<forall>c\<in>set cs. length c \<le> CHUNK_SIZE + TAG_SIZE"
     and ln: "length (concat (map chunk_record cs)) =
       chunk_count (length input) * (4 + TAG_SIZE) + length input"
     and e: "encrypt_chunks E b ad 0 input = (concat (map chunk_record cs), None)"
    by blast
  have "encrypt_file E r input ad =
       (file_header b (length input) @ concat (map chunk_record cs), r', Inr ())"
    using g e n by (simp add: encrypt_file_def pack_B_VERSION pack_Q_ok file_header_def)
  with l s bd ln show ?thesis by auto
qed

lemma decrypt_file_records:
  assumes b: "length b = 12" and n: "n < 2 ^ 64" and l: "length cs \<le> 2 ^ 64"
    and c: "\<forall>c \<in> set cs. length c < 2 ^ 32"
  shows "decrypt_file E (file_header b n @ concat (map chunk_record cs)) ad =
     (case open_records (aesgcm E) b ad 0 cs of
        (w, ok) \<Rightarrow>
          (w, if \<not> ok then Inl auth_failed
              else if length w \<noteq> n
              then Inl (Exn DecryptionError ''File size mismatch: expected {}, got {}''
                          [ANat n, ANat (length w)])
              else Inr ()))"
proof -
  let ?inp = "file_header b n @ concat (map chunk_record cs)"
  have 1: "take 1 ?inp = [1]" by (simp add: file_header_def)
  have 2: "take NONCE_SIZE (drop 1 ?inp) = b" using b by (simp add: file_header_def NONCE_SIZE_def)
  have 3: "take 8 (drop NONCE_SIZE (drop 1 ?inp)) = le_bytes 8 n"
    using b by (simp add: file_header_def NONCE_SIZE_def)
  have 4: "drop 8 (drop NONCE_SIZE (drop 1 ?inp)) = concat (map chunk_record cs)"
    using b by (simp add: file_header_def NONCE_SIZE_def)
  have 5: "unpack [1] = VERSION" by (simp add: unpack_def VERSION_def)
  have 6: "unpack (le_bytes 8 n) = n" using n by (simp add: unpack_def le_nat_le_bytes8)
  have 7: "decrypt_chunks E b ad 0 0 (concat (map chunk_record cs)) =
      (case open_records (aesgcm E) b ad 0 cs of
         (w, ok) \<Rightarrow> (w, if ok then Inr (0 + length w) else Inl auth_failed))"
    using decrypt_chunks_records[OF b _ c, of 0 E ad 0] l by simp
  obtain w ok where o: "open_records (aesgcm E) b ad 0 cs = (w, ok)"
    by (cases "open_records (aesgcm E) b ad 0 cs") auto
  show ?thesis
    unfolding decrypt_file_def
    apply (simp only: 1 2 3 4 5 6 7 Let_def)
    using b o by (simp add: NONCE_SIZE_def)
qed

lemma file_roundtrip:
  assumes A: "aes_seals (aesgcm E)" and O: "aes_opens (aesgcm E)" and n: "length input < 2 ^ 64"
  shows "\<exists>out r'. encrypt_file E r input ad = (out, r', Inr ()) \<and>
           length out = 21 + chunk_count (length input) * (4 + TAG_SIZE) + length input \<and>
           decrypt_file E out ad = (input, Inr ())"
proof -
  obtain b r' where g: "generate_nonce r = (b, r')" by (cases "generate_nonce r") auto
  have b: "length b = 12" using length_generate_nonce[of r] g by simp
  from encrypt_file_records[OF A n g, of ad]
  obtain cs where l: "length cs = chunk_count (length input)"
     and s: "\<forall>j<length cs. aes_encrypt (aesgcm E) (chunk_nonce b (0 + j)) (chunk_at input j)
                        (ad @ le_bytes 8 (0 + j)) = Inr (cs ! j)"
     and bd: "\<forall>c\<in>set cs. length c \<le> CHUNK_SIZE + TAG_SIZE"
     and ln: "length (concat (map chunk_record cs)) =
       chunk_count (length input) * (4 + TAG_SIZE) + length input"
     and e: "encrypt_file E r input ad =
       (file_header b (length input) @ concat (map chunk_record cs), r', Inr ())"
    by auto
  have c32: "\<forall>c \<in> set cs. length c < 2 ^ 32"
    using bd by (auto simp: CHUNK_SIZE_def TAG_SIZE_def)
  have l64: "length cs \<le> 2 ^ 64"
    using l chunk_count_le[of "length input"] n by simp
  have o: "open_records (aesgcm E) b ad 0 cs = (input, True)"
    using open_sealed[OF O l s] .
  have "decrypt_file E (file_header b (length input) @ concat (map chunk_record cs)) ad = (input, Inr ())"
    using decrypt_file_records[OF b n l64 c32, of E ad] o by simp
  moreover have "length (file_header b (length input) @ concat (map chunk_record cs)) =
      21 + chunk_count (length input) * (4 + TAG_SIZE) + length input"
    using ln b by (simp add: file_header_def)
  ultimately show ?thesis using e by simp
qed

section \<open>The size of an encrypted file\<close>

lemma le_bytes_zero: "le_bytes k 0 = replicate k 0"
  by (induction k) simp_all

lemma length_encode_ascii:
  "\<forall>c \<in> set s. (of_char c :: nat) < 128 \<Longrightarrow> length (encode_utf8 s) = length s"
  by (induction s) (auto simp: encode_utf8_def encode_char_def Let_def)

lemma demo_engine_seals: "aes_seals (aesgcm demo_engine)"
  by (simp add: demo_engine_def demo_seals)

lemma demo_engine_opens: "aes_opens (aesgcm demo_engine)"
  by (simp add: demo_engine_def demo_opens)

lemma length_hello_world: "length hello_world = 13"
  unfolding hello_world_def by (subst length_encode_ascii) simp_all

lemma zero_nonce: "fst (generate_nonce zero_rng) = replicate 12 0"
  by (simp add: generate_nonce_def urandom_def NONCE_SIZE_def zero_rng_def map_replicate_const)

text \<open>
  Claim C3. Encrypting an input of \<open>n\<close> bytes writes exactly
  \<open>21 + \<lceil>n/65536\<rceil> * 4 + n + \<lceil>n/65536\<rceil> * 16\<close> bytes and succeeds, for every \<open>n\<close> that fits the
  header's unsigned 64-bit size field and a cipher that seals as AES-GCM does (the ciphertext
  is the plaintext's length plus the 16-byte tag). For the empty input the output is the
  21-byte header alone: the version byte, the nonce, and the size 0 in eight bytes.
\<close>

theorem encrypt_file_size:
  assumes "aes_seals (aesgcm E)" and "length input < 2 ^ 64"
  shows "\<exists>out r'. encrypt_file E r input ad = (out, r', Inr ()) \<and>
     length out = 21 + ((length input + 65535) div 65536) * 4 + length input
                     + ((length input + 65535) div 65536) * 16 \<and>
     (input = [] \<longrightarrow> out = [1] @ fst (generate_nonce r) @ replicate 8 0)"
proof -
  obtain b r' where g: "generate_nonce r = (b, r')" by (cases "generate_nonce r") auto
  define k where "k = (length input + 65535) div 65536"
  have cc: "chunk_count (length input) = k"
    by (simp add: chunk_count_def CHUNK_SIZE_def k_def)
  from encrypt_file_records[OF assms g, of ad]
  obtain cs where l: "length cs = chunk_count (length input)"
     and ln: "length (concat (map chunk_record cs)) =
       chunk_count (length input) * (4 + TAG_SIZE) + length input"
     and e: "encrypt_file E r input ad =
       (file_header b (length input) @ concat (map chunk_record cs), r', Inr ())"
    by auto
  have b: "length b = 12" using length_generate_nonce[of r] g by simp
  have h: "length (file_header b (length input)) = 21"
    using b by (simp add: file_header_def)
  have t: "k * (4 + TAG_SIZE) = k * 4 + k * 16" by (simp add: TAG_SIZE_def)
  have 1: "length (file_header b (length input) @ concat (map chunk_record cs)) =
     21 + k * 4 + length input + k * 16"
    unfolding length_append h ln cc t by simp
  have 2: "input = [] \<longrightarrow> file_header b (length input) @ concat (map chunk_record cs)
      = [1] @ fst (generate_nonce r) @ replicate 8 0"
  proof
    assume i: "input = []"
    then have "cs = []" using l by simp
    moreover have "le_bytes 8 0 = replicate 8 0" by (rule le_bytes_zero)
    ultimately show "file_header b (length input) @ concat (map chunk_record cs)
      = [1] @ fst (generate_nonce r) @ replicate 8 0"
      using g i by (simp add: file_header_def)
  qed
  from e 1 2 show ?thesis unfolding k_def by blast
qed

theorem encrypt_file_size_witness:
  "(\<exists>out r'. encrypt_file demo_engine zero_rng hello_world [] = (out, r', Inr ()) \<and>
      length out = 54) \<and>
   (\<exists>out r'. encrypt_file demo_engine zero_rng (replicate 65537 0) [] = (out, r', Inr ()) \<and>
      length out = 65598) \<and>
   (\<exists>r'. encrypt_file demo_engine zero_rng [] [] = (1 # replicate 20 0, r', Inr ()))"
proof (intro conjI)
  have h2: "length hello_world < 2 ^ 64" unfolding length_hello_world by simp
  from encrypt_file_size [OF demo_engine_seals h2, of zero_rng "[]"]
  obtain out r' where
    e: "encrypt_file demo_engine zero_rng hello_world [] = (out, r', Inr ())"
    and n: "length out = 21 + ((length hello_world + 65535) div 65536) * 4
         + length hello_world + ((length hello_world + 65535) div 65536) * 16"
    by blast
  have "length out = 54" unfolding n length_hello_world by simp
  with e show "\<exists>out r'. encrypt_file demo_engine zero_rng hello_world [] = (out, r', Inr ()) \<and>
      length out = 54" by blast
next
  let ?inp = "replicate 65537 (0::byte)"
  have h2: "length ?inp < 2 ^ 64" by simp
  from encrypt_file_size [OF demo_engine_seals h2, of zero_rng "[]"]
  obtain out r' where
    e: "encrypt_file demo_engine zero_rng ?inp [] = (out, r', Inr ())"
    and n: "length out = 21 + ((length ?inp + 65535) div 65536) * 4
         + length ?inp + ((length ?inp + 65535) div 65536) * 16"
    by blast
  have "length out = 65598" unfolding n length_replicate by simp
  with e show "\<exists>out r'. encrypt_file demo_engine zero_rng ?inp [] = (out, r', Inr ()) \<and>
      length out = 65598" by blast
next
  have h2: "length ([]::bytes) < 2 ^ 64" by simp
  from encrypt_file_size [OF demo_engine_seals h2, of zero_rng "[]"]
  obtain out r' where
    e: "encrypt_file demo_engine zero_rng [] [] = (out, r', Inr ())"
    and n: "out = [1] @ fst (generate_nonce zero_rng) @ replicate 8 0"
    by blast
  have "out = 1 # replicate 20 0" unfolding n zero_nonce by (simp add: replicate_add[symmetric])
  with e show "\<exists>r'. encrypt_file demo_engine zero_rng [] [] = (1 # replicate 20 0, r', Inr ())"
    by blast
qed

section \<open>The nonce of a chunk\<close>

lemma chunk_nonce_demo: "chunk_nonce demo_nonce 258 = [0, 1, 2, 3, 6, 4, 6, 7, 8, 9, 10, 11]"
  by (simp add: chunk_nonce_def demo_nonce_def u64_byte_def upt_rec)

lemma chunk_nonce_bytes:
  assumes b: "length b = 12"
  shows "take 4 (chunk_nonce b i) = take 4 b"
    and "k < 8 \<Longrightarrow> chunk_nonce b i ! (4 + k) = b ! (4 + k) XOR u64_byte (word_of_nat i) k"
  using b by (simp_all add: chunk_nonce_def nth_append)

text \<open>
  Claim C4. For a base nonce \<open>b\<close> of 12 bytes and a chunk index \<open>i < 2\<^sup>6\<^sup>4\<close>,
  \<^verbatim>\<open>_derive_chunk_nonce\<close> returns the 12 bytes that agree with \<open>b\<close> on the first four and whose
  byte \<open>4 + k\<close> is \<open>b[4 + k]\<close> XOR byte \<open>k\<close> of the little-endian 64-bit encoding of \<open>i\<close>.
  \<^verbatim>\<open>encrypt_file\<close> seals chunk \<open>i\<close> of its input under exactly this nonce (with the chunk
  index appended to the associated data), and \<^verbatim>\<open>decrypt_file\<close> opens record \<open>i\<close> of a file
  under the same nonce and associated data.
\<close>

theorem chunk_nonce_derivation:
  assumes b: "length b = 12" and i: "i < 2 ^ 64"
  shows "derive_chunk_nonce b i = Inr (chunk_nonce b i) \<and>
     length (chunk_nonce b i) = 12 \<and>
     take 4 (chunk_nonce b i) = take 4 b \<and>
     (\<forall>k<8. chunk_nonce b i ! (4 + k) = b ! (4 + k) XOR u64_byte (word_of_nat i) k) \<and>
     (\<forall>(E::CryptoEngine) r r' input ad.
        aes_seals (aesgcm E) \<and> length input < 2 ^ 64 \<and> generate_nonce r = (b, r') \<and>
        i < chunk_count (length input) \<longrightarrow>
        (\<exists>cs. encrypt_file E r input ad =
                 (file_header b (length input) @ concat (map chunk_record cs), r', Inr ()) \<and>
              length cs = chunk_count (length input) \<and>
              aes_encrypt (aesgcm E) (chunk_nonce b i) (chunk_at input i) (ad @ le_bytes 8 i)
                = Inr (cs ! i))) \<and>
     (\<forall>(E::CryptoEngine) n cs ad.
        n < 2 ^ 64 \<and> length cs \<le> 2 ^ 64 \<and> (\<forall>c\<in>set cs. length c < 2 ^ 32) \<longrightarrow>
        decrypt_file E (file_header b n @ concat (map chunk_record cs)) ad =
          (case open_records (aesgcm E) b ad 0 cs of
             (w, ok) \<Rightarrow>
               (w, if \<not> ok then Inl auth_failed
                   else if length w \<noteq> n
                   then Inl (Exn DecryptionError ''File size mismatch: expected {}, got {}''
                               [ANat n, ANat (length w)])
                   else Inr ())))"
proof (intro conjI allI impI)
  show "derive_chunk_nonce b i = Inr (chunk_nonce b i)"
    using b i by (rule derive_chunk_nonce_eq)
  show "length (chunk_nonce b i) = 12" using b by simp
  show "take 4 (chunk_nonce b i) = take 4 b" using b by (rule chunk_nonce_bytes)
next
  fix k :: nat assume "k < 8"
  then show "chunk_nonce b i ! (4 + k) = b ! (4 + k) XOR u64_byte (word_of_nat i) k"
    by (rule chunk_nonce_bytes(2)[OF b])
next
  fix E :: CryptoEngine and r r' :: rng and input ad :: bytes
  assume a: "aes_seals (aesgcm E) \<and> length input < 2 ^ 64 \<and> generate_nonce r = (b, r') \<and>
        i < chunk_count (length input)"
  from encrypt_file_records[of E input r b r' ad] a
  obtain cs where l: "length cs = chunk_count (length input)"
     and s: "\<forall>j<length cs. aes_encrypt (aesgcm E) (chunk_nonce b j) (chunk_at input j)
                        (ad @ le_bytes 8 j) = Inr (cs ! j)"
     and e: "encrypt_file E r input ad =
       (file_header b (length input) @ concat (map chunk_record cs), r', Inr ())"
    by blast
  have "aes_encrypt (aesgcm E) (chunk_nonce b i) (chunk_at input i) (ad @ le_bytes 8 i)
                = Inr (cs ! i)"
    using s l a by simp
  with l e show "\<exists>cs. encrypt_file E r input ad =
                 (file_header b (length input) @ concat (map chunk_record cs), r', Inr ()) \<and>
              length cs = chunk_count (length input) \<and>
              aes_encrypt (aesgcm E) (chunk_nonce b i) (chunk_at input i) (ad @ le_bytes 8 i)
                = Inr (cs ! i)"
    by blast
next
  fix E :: CryptoEngine and n :: nat and cs :: "bytes list" and ad :: bytes
  assume a: "n < 2 ^ 64 \<and> length cs \<le> 2 ^ 64 \<and> (\<forall>c\<in>set cs. length c < 2 ^ 32)"
  then show "decrypt_file E (file_header b n @ concat (map chunk_record cs)) ad =
          (case open_records (aesgcm E) b ad 0 cs of
             (w, ok) \<Rightarrow>
               (w, if \<not> ok then Inl auth_failed
                   else if length w \<noteq> n
                   then Inl (Exn DecryptionError ''File size mismatch: expected {}, got {}''
                               [ANat n, ANat (length w)])
                   else Inr ()))"
    using decrypt_file_records[OF b, of n cs E ad] by blast
qed

theorem chunk_nonce_derivation_witness:
  "derive_chunk_nonce demo_nonce 258 = Inr [0, 1, 2, 3, 6, 4, 6, 7, 8, 9, 10, 11]"
proof -
  have b: "length demo_nonce = 12" by (simp add: demo_nonce_def)
  have i: "(258::nat) < 2 ^ 64" by simp
  from chunk_nonce_derivation [OF b i]
  have "derive_chunk_nonce demo_nonce 258 = Inr (chunk_nonce demo_nonce 258)" by blast
  then show ?thesis by (simp only: chunk_nonce_demo)
qed

section \<open>Declared chunk lengths\<close>

lemma decrypt_chunks_declared:
  assumes b: "length b = 12" and i: "i < 2 ^ 64" and l: "l < 2 ^ 32"
  shows "decrypt_chunks E b ad i tot (le_bytes 4 l @ rest) =
     (if length rest < l
      then ([], Inl (Exn DecryptionError ''Invalid file: corrupted chunk data'' []))
      else
        (case aes_decrypt (aesgcm E) (chunk_nonce b i) (take l rest) (ad @ le_bytes 8 i) of
           Inl e \<Rightarrow> ([], Inl auth_failed)
         | Inr d \<Rightarrow> (let (w, r) = decrypt_chunks E b ad (i + 1) (tot + length d) (drop l rest)
                     in (d @ w, r))))"
proof -
  have t: "take 4 (le_bytes 4 l @ rest) = le_bytes 4 l" by simp
  have d: "drop 4 (le_bytes 4 l @ rest) = rest" by simp
  have u: "unpack (le_bytes 4 l) = l"
    using l by (simp add: unpack_def le_nat_le_bytes4)
  have ne: "le_bytes 4 l \<noteq> []"
    by (metis length_le_bytes length_0_conv zero_neq_numeral)
  have len: "(length (take l rest) \<noteq> l) = (length rest < l)" by auto
  show ?thesis
    apply (subst decrypt_chunks.simps)
    apply (simp only: t d u len Let_def)
    using ne apply (simp add: pack_Q_ok[OF i] derive_chunk_nonce_eq[OF b i])
    done
qed

lemma decrypt_chunks_records_then:
  assumes b: "length b = 12"
  shows "i + length cs \<le> 2 ^ 64 \<Longrightarrow> \<forall>c \<in> set cs. length c < 2 ^ 32 \<Longrightarrow>
    decrypt_chunks E b ad i tot (concat (map chunk_record cs) @ tl0) =
      (case open_records (aesgcm E) b ad i cs of
         (w, ok) \<Rightarrow>
           if ok
           then (let (w', r) = decrypt_chunks E b ad (i + length cs) (tot + length w) tl0
                 in (w @ w', r))
           else (w, Inl auth_failed))"
proof (induction cs arbitrary: i tot)
  case Nil
  then show ?case by (simp split: prod.splits)
next
  case (Cons c cs)
  then have i: "i < 2 ^ 64" and c: "length c < 2 ^ 32" by simp_all
  have IH: "\<And>tot. decrypt_chunks E b ad (Suc i) tot (concat (map chunk_record cs) @ tl0) =
      (case open_records (aesgcm E) b ad (Suc i) cs of
         (w, ok) \<Rightarrow>
           if ok
           then (let (w', r) = decrypt_chunks E b ad (Suc i + length cs) (tot + length w) tl0
                 in (w @ w', r))
           else (w, Inl auth_failed))"
    using Cons.IH[of "Suc i"] Cons.prems by simp
  have split: "concat (map chunk_record (c # cs)) @ tl0 =
     chunk_record c @ (concat (map chunk_record cs) @ tl0)" by simp
  show ?case
  proof (cases "aes_decrypt (aesgcm E) (chunk_nonce b i) c (ad @ le_bytes 8 i)")
    case (Inl e)
    then show ?thesis unfolding split by (simp add: decrypt_chunks_record[OF b i c])
  next
    case (Inr d)
    obtain w ok where o: "open_records (aesgcm E) b ad (Suc i) cs = (w, ok)"
      by (cases "open_records (aesgcm E) b ad (Suc i) cs") auto
    show ?thesis unfolding split using Inr o
      by (simp add: decrypt_chunks_record[OF b i c] IH add.assoc split: prod.splits)
  qed
qed

lemma demo_open_sealed:
  "length nonce = 12 \<Longrightarrow>
   aes_decrypt (aesgcm demo_engine) nonce (d @ demo_tag (replicate 32 7) nonce ad) ad = Inr d"
  by (simp add: demo_engine_def demo_AESGCM_def)

lemma demo_open_short:
  "length nonce = 12 \<Longrightarrow> length c < 16 \<Longrightarrow>
   aes_decrypt (aesgcm demo_engine) nonce c ad = Inl InvalidTag"
  by (simp add: demo_engine_def demo_AESGCM_def)

lemma length_demo_nonce: "length demo_nonce = 12"
  by (simp add: demo_nonce_def)

text \<open>
  Claim C6, as amended. \<^verbatim>\<open>decrypt_file\<close> puts no bound on the length a chunk record declares.
  After the records \<open>cs\<close> have been opened, a record declaring \<open>l\<close> bytes (any unsigned
  32-bit value, zero and values above 65536 + 16 included) is treated as follows. If fewer than
  \<open>l\<close> bytes are left, the file is malformed: \<^verbatim>\<open>Invalid file: corrupted chunk data\<close>. Otherwise
  the \<open>l\<close> bytes go to AES-GCM under the nonce and associated data of that chunk index: when
  the cipher refuses them the error is the one of a failed authentication,
  \<^verbatim>\<open>Decryption failed: wrong password or corrupted data\<close>; when it opens them the plaintext is
  written and the loop goes on with the next record.
\<close>

theorem declared_chunk_length:
  assumes b: "length b = 12" and n: "n < 2 ^ 64"
    and cs: "length cs < 2 ^ 64" "\<forall>c \<in> set cs. length c < 2 ^ 32"
    and opened: "open_records (aesgcm E) b ad 0 cs = (w, True)"
    and l: "l < 2 ^ 32"
  shows "decrypt_file E (file_header b n @ concat (map chunk_record cs) @ le_bytes 4 l @ rest) ad =
     (if length rest < l
      then (w, Inl (Exn DecryptionError ''Invalid file: corrupted chunk data'' []))
      else
        (case aes_decrypt (aesgcm E) (chunk_nonce b (length cs)) (take l rest)
                (ad @ le_bytes 8 (length cs)) of
           Inl e \<Rightarrow> (w, Inl auth_failed)
         | Inr d \<Rightarrow>
             (case decrypt_chunks E b ad (length cs + 1) (length w + length d) (drop l rest) of
                (w', Inl e) \<Rightarrow> (w @ d @ w', Inl e)
              | (w', Inr total_decrypted) \<Rightarrow>
                  (w @ d @ w',
                   if total_decrypted \<noteq> n
                   then Inl (Exn DecryptionError ''File size mismatch: expected {}, got {}''
                               [ANat n, ANat total_decrypted])
                   else Inr ()))))"
proof -
  let ?body = "concat (map chunk_record cs) @ le_bytes 4 l @ rest"
  let ?inp = "file_header b n @ ?body"
  have 1: "take 1 ?inp = [1]" by (simp add: file_header_def)
  have 2: "take NONCE_SIZE (drop 1 ?inp) = b" using b by (simp add: file_header_def NONCE_SIZE_def)
  have 3: "take 8 (drop NONCE_SIZE (drop 1 ?inp)) = le_bytes 8 n"
    using b by (simp add: file_header_def NONCE_SIZE_def)
  have 4: "drop 8 (drop NONCE_SIZE (drop 1 ?inp)) = ?body"
    using b by (simp add: file_header_def NONCE_SIZE_def)
  have 5: "unpack [1] = VERSION" by (simp add: unpack_def VERSION_def)
  have 6: "unpack (le_bytes 8 n) = n" using n by (simp add: unpack_def le_nat_le_bytes8)
  have i: "length cs < 2 ^ 64" by (rule cs(1))
  have 7: "decrypt_chunks E b ad 0 0 ?body =
      (let (w', r) = decrypt_chunks E b ad (length cs) (length w) (le_bytes 4 l @ rest)
       in (w @ w', r))"
    using decrypt_chunks_records_then[OF b _ cs(2), of 0 E ad 0 "le_bytes 4 l @ rest"] cs(1) opened
    by simp
  note 8 = decrypt_chunks_declared[OF b i l, of E ad "length w" rest]
  show ?thesis
  proof (cases "length rest < l")
    case True
    then show ?thesis
      unfolding decrypt_file_def
      apply (simp only: 1 2 3 4 5 6 7 8 Let_def)
      using b by (simp add: NONCE_SIZE_def)
  next
    case False
    show ?thesis
    proof (cases "aes_decrypt (aesgcm E) (chunk_nonce b (length cs)) (take l rest)
                (ad @ le_bytes 8 (length cs))")
      case (Inl e)
      then show ?thesis
        unfolding decrypt_file_def
        apply (simp only: 1 2 3 4 5 6 7 8 Let_def)
        using b False by (simp add: NONCE_SIZE_def)
    next
      case (Inr d)
      obtain w' r where o: "decrypt_chunks E b ad (Suc (length cs)) (length w + length d) (drop l rest)
          = (w', r)"
        by (cases "decrypt_chunks E b ad (Suc (length cs)) (length w + length d) (drop l rest)") auto
      show ?thesis
        unfolding decrypt_file_def
        apply (simp only: 1 2 3 4 5 6 7 8 Let_def)
        using b False Inr o by (cases r) (simp_all add: NONCE_SIZE_def)
    qed
  qed
qed

lemma le_bytes_4: "le_bytes 4 n =
  [word_of_nat n, word_of_nat (n div 256), word_of_nat (n div 256 div 256),
   word_of_nat (n div 256 div 256 div 256)]"
proof -
  have "(4::nat) = Suc (Suc (Suc (Suc 0)))" by simp
  then show ?thesis by (simp only: le_bytes.simps)
qed

lemma le_bytes_8: "le_bytes 8 n =
  [word_of_nat n, word_of_nat (n div 256), word_of_nat (n div 256 div 256),
   word_of_nat (n div 256 div 256 div 256), word_of_nat (n div 256 div 256 div 256 div 256),
   word_of_nat (n div 256 div 256 div 256 div 256 div 256),
   word_of_nat (n div 256 div 256 div 256 div 256 div 256 div 256),
   word_of_nat (n div 256 div 256 div 256 div 256 div 256 div 256 div 256)]"
proof -
  have "(8::nat) = Suc (Suc (Suc (Suc (Suc (Suc (Suc (Suc 0)))))))" by simp
  then show ?thesis by (simp only: le_bytes.simps)
qed

lemma le_bytes_4_65553: "le_bytes 4 65553 = [17, 0, 1, 0]"
  by (simp add: le_bytes_4)

lemma le_bytes_8_65537: "le_bytes 8 65537 = [1, 0, 1, 0, 0, 0, 0, 0]"
  by (simp add: le_bytes_8)

lemma le_bytes_small: "le_bytes 4 0 = [0, 0, 0, 0]" "le_bytes 8 0 = [0,0,0,0,0,0,0,0]" "le_bytes 8 1 = [1,0,0,0,0,0,0,0]"
   "le_bytes 4 17 = [17, 0, 0, 0]" "le_bytes 4 5 = [5, 0, 0, 0]"
  by (simp_all add: le_bytes_4 le_bytes_8)

lemma le_bytes_8_one: "le_bytes 8 (Suc 0) = [1,0,0,0,0,0,0,0]"
  by (simp add: le_bytes_8)

lemma demo_tag_sevens: "demo_tag (replicate 32 7) nonce ad = replicate 16 7"
  by (simp add: demo_tag_def)

lemma chunk_nonce_demo_0: "chunk_nonce demo_nonce 0 = demo_nonce"
  by (simp add: chunk_nonce_def demo_nonce_def u64_byte_def upt_rec)

lemma demo_header:
  "file_header demo_nonce 0 = [1, 0, 1, 2, 3, 4, 5, 6, 7, 8, 9, 10, 11, 0, 0, 0, 0, 0, 0, 0, 0]"
  "file_header demo_nonce (Suc 0) = [1, 0, 1, 2, 3, 4, 5, 6, 7, 8, 9, 10, 11, 1, 0, 0, 0, 0, 0, 0, 0]"
  "file_header demo_nonce 65537 = [1, 0, 1, 2, 3, 4, 5, 6, 7, 8, 9, 10, 11, 1, 0, 1, 0, 0, 0, 0, 0]"
  by (simp_all add: file_header_def demo_nonce_def le_bytes_8_65537 le_bytes_small le_bytes_8_one)

lemma demo_open_bad_tag:
  "length nonce = 12 \<Longrightarrow>
   aes_decrypt (aesgcm demo_engine) nonce (replicate 17 0) ad = Inl InvalidTag"
  by (simp add: demo_engine_def demo_AESGCM_def demo_tag_sevens)

text \<open>
  The claim as the specification states it fails. A record of declared length zero is
  reported with the very error of a record whose tag does not verify, and a record of
  65553 bytes, one more than 65536 + 16, that authenticates is decrypted.
\<close>

theorem chunk_length_counterexample:
  "decrypt_file demo_engine
     ([1, 0, 1, 2, 3, 4, 5, 6, 7, 8, 9, 10, 11, 0, 0, 0, 0, 0, 0, 0, 0] @ [0, 0, 0, 0]) []
     = ([], Inl (Exn DecryptionError ''Decryption failed: wrong password or corrupted data'' []))
   \<and>
   decrypt_file demo_engine
     ([1, 0, 1, 2, 3, 4, 5, 6, 7, 8, 9, 10, 11, 1, 0, 0, 0, 0, 0, 0, 0] @ [17, 0, 0, 0]
        @ replicate 17 0) []
     = ([], Inl (Exn DecryptionError ''Decryption failed: wrong password or corrupted data'' []))
   \<and>
   decrypt_file demo_engine
     ([1, 0, 1, 2, 3, 4, 5, 6, 7, 8, 9, 10, 11, 1, 0, 1, 0, 0, 0, 0, 0] @ [17, 0, 1, 0]
        @ replicate 65537 0 @ replicate 16 7) []
     = (replicate 65537 0, Inr ())"
proof (intro conjI)
  have "decrypt_file demo_engine (file_header demo_nonce 0 @ concat (map chunk_record [[]])) []
     = ([], Inl auth_failed)"
    by (subst decrypt_file_records)
       (simp_all add: length_demo_nonce chunk_nonce_demo_0 demo_open_short)
  then show "decrypt_file demo_engine
     ([1, 0, 1, 2, 3, 4, 5, 6, 7, 8, 9, 10, 11, 0, 0, 0, 0, 0, 0, 0, 0] @ [0, 0, 0, 0]) []
     = ([], Inl (Exn DecryptionError ''Decryption failed: wrong password or corrupted data'' []))"
    by (simp add: demo_header chunk_record_def le_bytes_small auth_failed_def)
next
  have "decrypt_file demo_engine
          (file_header demo_nonce 1 @ concat (map chunk_record [replicate 17 0])) []
     = ([], Inl auth_failed)"
    by (subst decrypt_file_records)
       (simp_all add: length_demo_nonce chunk_nonce_demo_0 demo_open_bad_tag)
  then show "decrypt_file demo_engine
     ([1, 0, 1, 2, 3, 4, 5, 6, 7, 8, 9, 10, 11, 1, 0, 0, 0, 0, 0, 0, 0] @ [17, 0, 0, 0]
        @ replicate 17 0) []
     = ([], Inl (Exn DecryptionError ''Decryption failed: wrong password or corrupted data'' []))"
    by (simp add: demo_header chunk_record_def le_bytes_small auth_failed_def)
next
  have o: "aes_decrypt (aesgcm demo_engine) demo_nonce
         (replicate 65537 0 @ demo_tag (replicate 32 7) demo_nonce ([] @ le_bytes 8 0))
         ([] @ le_bytes 8 0) = Inr (replicate 65537 0)"
    by (rule demo_open_sealed) (rule length_demo_nonce)
  have "decrypt_file demo_engine
          (file_header demo_nonce 65537 @
             concat (map chunk_record [replicate 65537 0 @ replicate 16 7])) []
     = (replicate 65537 0, Inr ())"
    using o by (subst decrypt_file_records) (simp_all add: length_demo_nonce chunk_nonce_demo_0 demo_tag_sevens)
  then show "decrypt_file demo_engine
     ([1, 0, 1, 2, 3, 4, 5, 6, 7, 8, 9, 10, 11, 1, 0, 1, 0, 0, 0, 0, 0] @ [17, 0, 1, 0]
        @ replicate 65537 0 @ replicate 16 7) []
     = (replicate 65537 0, Inr ())"
    by (simp add: demo_header chunk_record_def le_bytes_4_65553)
qed

theorem declared_chunk_length_witness:
  "decrypt_file demo_engine (file_header demo_nonce 0 @ le_bytes 4 0) [] = ([], Inl auth_failed) \<and>
   decrypt_file demo_engine
     (file_header demo_nonce 65537 @ le_bytes 4 65553 @ replicate 65537 0 @ replicate 16 7) []
     = (replicate 65537 0, Inr ()) \<and>
   decrypt_file demo_engine (file_header demo_nonce 0 @ le_bytes 4 5 @ [1, 2]) []
     = ([], Inl (Exn DecryptionError ''Invalid file: corrupted chunk data'' []))"
proof -
  have b: "length demo_nonce = 12" by (rule length_demo_nonce)
  have cs: "length ([] :: bytes list) < 2 ^ 64" "\<forall>c \<in> set ([] :: bytes list). length c < 2 ^ 32"
    by simp_all
  have op: "open_records (aesgcm demo_engine) demo_nonce [] 0 [] = ([], True)" by simp
  have o: "aes_decrypt (aesgcm demo_engine) demo_nonce
         (replicate 65537 0 @ demo_tag (replicate 32 7) demo_nonce ([] @ le_bytes 8 0))
         ([] @ le_bytes 8 0) = Inr (replicate 65537 0)"
    by (rule demo_open_sealed) (rule length_demo_nonce)
  have 1: "decrypt_file demo_engine (file_header demo_nonce 0 @ le_bytes 4 0) [] = ([], Inl auth_failed)"
    using declared_chunk_length [OF b _ cs op, of 0 0 "[]"]
    by (simp add: chunk_nonce_demo_0 demo_open_short length_demo_nonce)
  have 2: "decrypt_file demo_engine
     (file_header demo_nonce 65537 @ le_bytes 4 65553 @ replicate 65537 0 @ replicate 16 7) []
     = (replicate 65537 0, Inr ())"
    using declared_chunk_length [OF b _ cs op, of 65537 65553 "replicate 65537 0 @ replicate 16 7"] o
    by (simp add: chunk_nonce_demo_0 demo_tag_sevens decrypt_chunks_Nil)
  have 3: "decrypt_file demo_engine (file_header demo_nonce 0 @ le_bytes 4 5 @ [1, 2]) []
     = ([], Inl (Exn DecryptionError ''Invalid file: corrupted chunk data'' []))"
    using declared_chunk_length [OF b _ cs op, of 0 5 "[1, 2]"]
    by simp
  from 1 2 3 show ?thesis by simp
qed

section \<open>Creating directories and files\<close>

lemma lookup_put:
  "lookup (put s p n) q = (if q = [] then Some (Dir 493) else if q = p then Some n else lookup s q)"
  by (simp add: lookup_def put_def update_conv')

lemma put_fields [simp]:
  "dir_mode (put s p n) = dir_mode s" "file_mode (put s p n) = file_mode s"
  "random (put s p n) = random s"
  by (simp_all add: put_def)

lemma lookup_root [simp]: "lookup s [] = Some (Dir 493)"
  by (simp add: lookup_def)

lemma os_mkdir_Inr:
  "os_mkdir s p = Inr s' \<Longrightarrow>
     s' = put s p (Dir (dir_mode s)) \<and> lookup s p = None \<and> p \<noteq> [] \<and> is_dir s (butlast p)"
  by (auto simp: os_mkdir_def path_exists_def split: if_splits)

lemma mkdir_parents_frame:
  "mkdir_parents s p = Inr s' \<Longrightarrow>
     dir_mode s' = dir_mode s \<and> file_mode s' = file_mode s \<and> random s' = random s \<and>
     (\<forall>q. \<not> prefix q p \<longrightarrow> lookup s' q = lookup s q) \<and>
     (\<forall>q. lookup s q \<noteq> None \<longrightarrow> lookup s' q = lookup s q) \<and>
     (\<forall>q. lookup s q = None \<longrightarrow> lookup s' q = None \<or> lookup s' q = Some (Dir (dir_mode s))) \<and>
     (lookup s p = None \<longrightarrow> lookup s' p = Some (Dir (dir_mode s))) \<and>
     is_dir s' p"
proof (induction s p arbitrary: s' rule: mkdir_parents.induct)
  case (1 s p)
  show ?case
  proof (cases "os_mkdir s p")
    case (Inr s1)
    then have "s' = s1" using "1.prems" by (subst (asm) mkdir_parents.simps) simp
    with os_mkdir_Inr[OF Inr] show ?thesis
      by (auto simp: lookup_put is_dir_def)
  next
    case (Inl e)
    show ?thesis
    proof (cases "exc_class_of e = PyExc ''FileNotFoundError''")
      case False
      then have "s' = s \<and> is_dir s p" using "1.prems" Inl
        by (subst (asm) mkdir_parents.simps) (simp split: if_splits)
      then show ?thesis by (auto simp: is_dir_def split: option.splits)
    next
      case True
      then have pne: "p \<noteq> []" using "1.prems" Inl
        by (subst (asm) mkdir_parents.simps) (simp split: if_splits)
      obtain s1 where s1: "mkdir_parents s (butlast p) = Inr s1"
        using "1.prems" Inl True pne
        by (subst (asm) mkdir_parents.simps) (simp split: if_splits sum.splits)
      note IH = "1.IH"[OF Inl True pne s1]
      have nex: "lookup s p = None"
        using Inl True
        by (auto simp: os_mkdir_def path_exists_def FileExistsError_def split: if_splits)
      have np: "\<not> prefix p (butlast p)"
        using pne by (metis prefix_length_le length_butlast diff_less length_greater_0_conv
            less_numeral_extra(1) not_less)
      then have nex1: "lookup s1 p = None" using IH nex by simp
      have rest: "(case os_mkdir s1 p of
                       Inr s'' \<Rightarrow> Inr s''
                     | Inl e2 \<Rightarrow>
                         if exc_class_of e2 = PyExc ''FileNotFoundError'' then Inl e2
                         else if is_dir s1 p then Inr s1
                         else Inl e2) = Inr s'"
        using "1.prems" Inl True pne s1
        by (subst (asm) mkdir_parents.simps) simp
      have nd: "\<not> is_dir s1 p" using nex1 by (simp add: is_dir_def)
      then obtain s2 where s2: "os_mkdir s1 p = Inr s2" and eq: "s' = s2"
        using rest by (auto split: sum.splits if_splits)
      from os_mkdir_Inr[OF s2] eq have s': "s' = put s1 p (Dir (dir_mode s1))" by simp
      have pre: "\<And>q. prefix q (butlast p) \<Longrightarrow> prefix q p"
        by (metis prefix_order.order_trans prefixeq_butlast)
      show ?thesis
        unfolding s' using IH pne nex pre
        by (auto simp: lookup_put is_dir_def)
    qed
  qed
qed

section \<open>Restoring permissions\<close>

lemma restore_permissions_falsy:
  "\<not> truthy perms \<Longrightarrow> restore_permissions s p perms = s"
  by (simp add: restore_permissions_def)

lemma decrypt_item_permissions:
  assumes rp: "relative_path m = JStr rp"
  shows "decrypt_item E inp out s m =
     (case decrypt_item E inp out s (m\<lparr>permissions := JNull\<rparr>) of
        (s1, Inl e) \<Rightarrow> (s1, Inl e)
      | (s1, Inr u) \<Rightarrow>
          (restore_permissions s1 (join_under out (Path rp)) (permissions m), Inr ()))"
  using rp
  by (simp add: decrypt_item_def restore_permissions_falsy Let_def
           split: sum.splits prod.splits)

lemma not_prefix_butlast: "p \<noteq> [] \<Longrightarrow> \<not> prefix p (butlast p)"
  by (metis prefix_length_le length_butlast diff_less length_greater_0_conv
      less_numeral_extra(1) not_less)

lemma decrypt_item_default_mode:
  assumes rp: "relative_path m = JStr rp"
    and ok: "decrypt_item E inp out s (m\<lparr>permissions := JNull\<rparr>) = (s1, Inr ())"
    and new: "lookup s (join_under out (Path rp)) = None"
  shows "if truthy (is_directory m)
         then lookup s1 (join_under out (Path rp)) = Some (Dir (dir_mode s))
         else (\<exists>d. lookup s1 (join_under out (Path rp)) = Some (File (file_mode s) d))"
proof (cases "truthy (is_directory m)")
  case True
  then obtain s' where mk: "mkdir_parents s (join_under out (Path rp)) = Inr s'" and s1: "s1 = s'"
    using ok rp
    by (auto simp: decrypt_item_def restore_permissions_falsy Let_def split: sum.splits)
  from mkdir_parents_frame[OF mk] new s1 True show ?thesis by simp
next
  case False
  let ?t = "join_under out (Path rp)"
  have tne: "?t \<noteq> []" using new by auto
  obtain sa sb w r where mk: "mkdir_parents s (butlast ?t) = Inr sa"
    and ow: "open_wb sa ?t = Inr sb"
    and s1: "s1 = write_bytes sb ?t w"
    using ok rp False
    by (auto simp: decrypt_item_def restore_permissions_falsy Let_def
          split: sum.splits prod.splits if_splits)
  from mkdir_parents_frame[OF mk] new not_prefix_butlast[OF tne]
  have la: "lookup sa ?t = None" and fm: "file_mode sa = file_mode s" by simp_all
  then have sb: "sb = put sa ?t (File (file_mode s) [])"
    using ow by (auto simp: open_wb_def split: if_splits)
  have "lookup s1 ?t = Some (File (file_mode s) w)"
    unfolding s1 sb using tne by (simp add: write_bytes_def lookup_put)
  then show ?thesis using False by auto
qed

lemma Path_d: "Path ''d'' = (False, [''d''])"
  by (simp add: Path_def)

lemma demo_mkdir_out_d:
  "mkdir_parents demo_os [''out'', ''d''] =
     Inr (put (put demo_os [''out''] (Dir 493)) [''out'', ''d''] (Dir 493))"
  apply (subst mkdir_parents.simps)
  apply (simp add: os_mkdir_def path_exists_def lookup_def is_dir_def demo_os_def
       missing_error_def FileNotFoundError_def is_file_def)
  apply (subst mkdir_parents.simps)
  apply (simp add: os_mkdir_def path_exists_def lookup_def is_dir_def put_def)
  done

lemma demo_dir_plain:
  "decrypt_item demo_engine [''enc''] [''out''] demo_os (dir_entry JNull) =
     (put (put demo_os [''out''] (Dir 493)) [''out'', ''d''] (Dir 493), Inr ())"
  by (simp add: decrypt_item_def dir_entry_def Path_d join_under_def demo_mkdir_out_d
      restore_permissions_def)

text \<open>
  Claim C9. For a manifest entry whose path is a string, \<^verbatim>\<open>decrypt_folder\<close> handles the entry
  as it would with no permissions recorded and then, only if that succeeded, restores the
  permissions on the created path. The restoration does nothing when the field is \<^verbatim>\<open>None\<close>
  or \<^verbatim>\<open>0\<close>, so a path that did not exist keeps the mode it was created with (the default of
  new directories, or of new files); it runs \<^verbatim>\<open>os.chmod\<close> otherwise, and when \<^verbatim>\<open>os.chmod\<close> raises
  the state is left as it was, the entry counts as done and the loop goes on with the
  remaining entries.
\<close>

theorem permission_restore:
  assumes rp: "relative_path m = JStr rp"
  shows "decrypt_item E inp out s m =
       (case decrypt_item E inp out s (m\<lparr>permissions := JNull\<rparr>) of
          (s1, Inl e) \<Rightarrow> (s1, Inl e)
        | (s1, Inr u) \<Rightarrow>
            (restore_permissions s1 (join_under out (Path rp)) (permissions m), Inr ())) \<and>
     (\<forall>s1 p. restore_permissions s1 p JNull = s1 \<and> restore_permissions s1 p (JInt 0) = s1) \<and>
     (\<forall>s1 p e. os_chmod s1 p (permissions m) = Inl e \<longrightarrow>
        restore_permissions s1 p (permissions m) = s1) \<and>
     (\<forall>s1 p s2. truthy (permissions m) \<and> os_chmod s1 p (permissions m) = Inr s2 \<longrightarrow>
        restore_permissions s1 p (permissions m) = s2) \<and>
     (\<forall>s1. (permissions m = JNull \<or> permissions m = JInt 0) \<and>
        decrypt_item E inp out s m = (s1, Inr ()) \<and>
        lookup s (join_under out (Path rp)) = None \<longrightarrow>
        (if truthy (is_directory m)
         then lookup s1 (join_under out (Path rp)) = Some (Dir (dir_mode s))
         else (\<exists>d. lookup s1 (join_under out (Path rp)) = Some (File (file_mode s) d)))) \<and>
     (\<forall>s1 e rest.
        decrypt_item E inp out s (m\<lparr>permissions := JNull\<rparr>) = (s1, Inr ()) \<and>
        os_chmod s1 (join_under out (Path rp)) (permissions m) = Inl e \<longrightarrow>
        decrypt_items E inp out s (m # rest) = decrypt_items E inp out s1 rest)"
proof (intro conjI allI impI)
  show a: "decrypt_item E inp out s m =
       (case decrypt_item E inp out s (m\<lparr>permissions := JNull\<rparr>) of
          (s1, Inl e) \<Rightarrow> (s1, Inl e)
        | (s1, Inr u) \<Rightarrow>
            (restore_permissions s1 (join_under out (Path rp)) (permissions m), Inr ()))"
    using rp by (rule decrypt_item_permissions)
  {
    fix s1 p
    show "restore_permissions s1 p JNull = s1" by (simp add: restore_permissions_def)
    show "restore_permissions s1 p (JInt 0) = s1" by (simp add: restore_permissions_def)
  }
  {
    fix s1 p e
    assume "os_chmod s1 p (permissions m) = Inl e"
    then show "restore_permissions s1 p (permissions m) = s1"
      by (simp add: restore_permissions_def)
  }
  {
    fix s1 p s2
    assume "truthy (permissions m) \<and> os_chmod s1 p (permissions m) = Inr s2"
    then show "restore_permissions s1 p (permissions m) = s2"
      by (simp add: restore_permissions_def)
  }
  {
    fix s1
    assume h: "(permissions m = JNull \<or> permissions m = JInt 0) \<and>
        decrypt_item E inp out s m = (s1, Inr ()) \<and>
        lookup s (join_under out (Path rp)) = None"
    then have f: "\<not> truthy (permissions m)" by auto
    have "decrypt_item E inp out s (m\<lparr>permissions := JNull\<rparr>) = (s1, Inr ())"
      using h a f
      by (auto simp: restore_permissions_falsy split: prod.splits sum.splits)
    from decrypt_item_default_mode[OF rp this] h
    show "if truthy (is_directory m)
         then lookup s1 (join_under out (Path rp)) = Some (Dir (dir_mode s))
         else (\<exists>d. lookup s1 (join_under out (Path rp)) = Some (File (file_mode s) d))"
      by simp
  }
  {
    fix s1 e rest
    assume h: "decrypt_item E inp out s (m\<lparr>permissions := JNull\<rparr>) = (s1, Inr ()) \<and>
        os_chmod s1 (join_under out (Path rp)) (permissions m) = Inl e"
    then have "decrypt_item E inp out s m = (s1, Inr ())"
      using a by (simp add: restore_permissions_def)
    then show "decrypt_items E inp out s (m # rest) = decrypt_items E inp out s1 rest"
      by simp
  }
qed

theorem permission_restore_witness:
  "decrypt_item demo_engine [''enc''] [''out''] demo_os (dir_entry (JInt 0)) =
     (put (put demo_os [''out''] (Dir 493)) [''out'', ''d''] (Dir 493), Inr ()) \<and>
   decrypt_item demo_engine [''enc''] [''out''] demo_os (dir_entry (JInt 16832)) =
     (put (put (put demo_os [''out''] (Dir 493)) [''out'', ''d''] (Dir 493))
        [''out'', ''d''] (Dir 448), Inr ()) \<and>
   decrypt_item demo_engine [''enc''] [''out''] demo_os (dir_entry (JInt (2 ^ 31))) =
     (put (put demo_os [''out''] (Dir 493)) [''out'', ''d''] (Dir 493), Inr ()) \<and>
   decrypt_items demo_engine [''enc''] [''out''] demo_os
       [dir_entry (JStr ''rwx''), dir_entry JNull] =
     (put (put demo_os [''out''] (Dir 493)) [''out'', ''d''] (Dir 493), Inr ()) \<and>
   lookup (fst (decrypt_item demo_engine [''enc''] [''out''] demo_os (dir_entry (JInt 0))))
     [''out'', ''d''] = Some (Dir 493)"
proof -
  let ?s1 = "put (put demo_os [''out''] (Dir 493)) [''out'', ''d''] (Dir 493)"
  have rp: "\<And>perms. relative_path (dir_entry perms) = JStr ''d''" by (simp add: dir_entry_def)
  have pm: "\<And>perms. permissions (dir_entry perms) = perms" by (simp add: dir_entry_def)
  have nl: "\<And>perms. (dir_entry perms)\<lparr>permissions := JNull\<rparr> = dir_entry JNull"
    by (simp add: dir_entry_def)
  have t: "join_under [''out''] (Path ''d'') = [''out'', ''d'']"
    by (simp add: Path_d join_under_def)
  have l: "lookup ?s1 [''out'', ''d''] = Some (Dir 493)" by (simp add: lookup_put)
  have again: "mkdir_parents ?s1 [''out'', ''d''] = Inr ?s1"
    by (subst mkdir_parents.simps)
       (simp add: os_mkdir_def path_exists_def l is_dir_def FileExistsError_def)
  have plain2: "decrypt_item demo_engine [''enc''] [''out''] ?s1 (dir_entry JNull) = (?s1, Inr ())"
    by (simp add: decrypt_item_def dir_entry_def Path_d join_under_def again
        restore_permissions_def)
  note T = permission_restore [where E = demo_engine and inp = "[''enc'']" and out = "[''out'']"
         and s = demo_os, OF rp]
  have 1: "decrypt_item demo_engine [''enc''] [''out''] demo_os (dir_entry (JInt 0)) = (?s1, Inr ())"
    using T [of "JInt 0"] by (simp add: pm nl demo_dir_plain)
  have 2: "decrypt_item demo_engine [''enc''] [''out''] demo_os (dir_entry (JInt 16832)) =
     (put ?s1 [''out'', ''d''] (Dir 448), Inr ())"
    using T [of "JInt 16832"]
    by (simp add: pm nl demo_dir_plain t os_chmod_def chmod_int_def l)
  have 3: "decrypt_item demo_engine [''enc''] [''out''] demo_os (dir_entry (JInt (2 ^ 31))) =
     (?s1, Inr ())"
    using T [of "JInt (2 ^ 31)"]
    by (simp add: pm nl demo_dir_plain t os_chmod_def chmod_int_def)
  have 4: "decrypt_items demo_engine [''enc''] [''out''] demo_os
       [dir_entry (JStr ''rwx''), dir_entry JNull] = (?s1, Inr ())"
    using T [of "JStr ''rwx''"]
    by (simp add: pm nl demo_dir_plain t os_chmod_def plain2)
  have new: "lookup demo_os [''out'', ''d''] = None"
    by (simp add: lookup_def demo_os_def)
  have isd: "truthy (is_directory (dir_entry (JInt 0)))" by (simp add: dir_entry_def)
  have "lookup ?s1 (join_under [''out''] (Path ''d'')) = Some (Dir (dir_mode demo_os))"
    using T [of "JInt 0", THEN conjunct2, THEN conjunct2, THEN conjunct2, THEN conjunct2,
             THEN conjunct1, rule_format, of ?s1] 1 new isd
    by (simp add: pm t)
  then have 5: "lookup (fst (decrypt_item demo_engine [''enc''] [''out''] demo_os
       (dir_entry (JInt 0)))) [''out'', ''d''] = Some (Dir 493)"
    unfolding 1 by (simp add: t demo_os_def)
  from 1 2 3 4 5 show ?thesis by simp
qed

section \<open>Loading the manifest\<close>

lemma failed_to_load_class [simp]: "exc_class_of (failed_to_load e) = InvalidMetadataError"
  by (cases e) (simp add: failed_to_load_def)

lemma parse_manifest_class:
  "parse_manifest j = Inl e \<Longrightarrow> exc_class_of e = InvalidMetadataError"
  by (auto simp: parse_manifest_def split: json.splits if_splits sum.splits)

lemma load_metadata_class:
  "load_metadata L E s inp = Inl e \<Longrightarrow> exc_class_of e = InvalidMetadataError"
  by (auto simp: load_metadata_def Let_def dest: parse_manifest_class
           split: if_splits sum.splits)

lemma load_metadata_parse:
  assumes "lookup s (inp @ [METADATA_FILENAME]) = Some (File md c)"
    and "decrypt_metadata E (drop NONCE_SIZE c) (take NONCE_SIZE c) = Inr bs"
    and "json_loads L bs = Inr j"
  shows "load_metadata L E s inp = parse_manifest j"
  using assms by (simp add: load_metadata_def path_exists_def open_rb_def content_def)

lemma new_FileMetadata_Inr:
  "(\<exists>x. new_FileMetadata m = Inr x) = entry_shape_ok m"
  by (auto simp: new_FileMetadata_def entry_shape_ok_def list_ex_iff split: json.splits)

lemma new_FileMetadata_fields:
  "new_FileMetadata (JObj kvs) = Inr x \<Longrightarrow>
     relative_path x = get_or kvs ''relative_path'' JNull \<and>
     original_size x = get_or kvs ''original_size'' JNull \<and>
     encrypted_size x = get_or kvs ''encrypted_size'' JNull \<and>
     is_directory x = get_or kvs ''is_directory'' JNull \<and>
     permissions x = get_or kvs ''permissions'' JNull"
  by (auto simp: new_FileMetadata_def split: if_splits)

lemma parse_entries_Inr:
  "(\<exists>xs. parse_entries ms = Inr xs) = (\<forall>m \<in> set ms. entry_shape_ok m)"
proof (induction ms)
  case Nil then show ?case by simp
next
  case (Cons m ms)
  show ?case
  proof (cases "new_FileMetadata m")
    case (Inl e)
    then have "\<not> entry_shape_ok m" using new_FileMetadata_Inr[of m] by simp
    then show ?thesis using Inl by simp
  next
    case (Inr x)
    then have "entry_shape_ok m" using new_FileMetadata_Inr[of m] by auto
    then show ?thesis using Inr Cons by (auto split: sum.splits)
  qed
qed

lemma parse_entries_nth:
  "parse_entries ms = Inr xs \<Longrightarrow>
     length xs = length ms \<and> (\<forall>i<length ms. new_FileMetadata (ms ! i) = Inr (xs ! i))"
proof (induction ms arbitrary: xs)
  case Nil then show ?case by simp
next
  case (Cons m ms)
  then obtain x xs' where x: "new_FileMetadata m = Inr x" and xs': "parse_entries ms = Inr xs'"
    and xs: "xs = x # xs'"
    by (auto split: sum.splits)
  from Cons.IH[OF xs'] x xs show ?case by (auto simp: nth_Cons split: nat.splits)
qed

text \<open>
  Claim C5, as amended. \<^verbatim>\<open>_load_metadata\<close> validates the shape of the decrypted manifest and
  nothing else. Every failure of loading is an \<^verbatim>\<open>InvalidMetadataError\<close>. When the manifest
  file opens and parses, the result is that of the checks after \<^verbatim>\<open>json.loads\<close>, and these
  accept exactly the objects whose \<^verbatim>\<open>version\<close> equals 1 and whose \<^verbatim>\<open>files\<close> (default: empty)
  can be iterated and holds only mappings with keys among the five fields of
  \<^verbatim>\<open>FileMetadata\<close>, the four without default included. The fields of an entry are taken as
  they are: no condition is put on \<^verbatim>\<open>relative_path\<close>, neither on its value nor on its
  being used once.
\<close>

theorem manifest_validation:
  "(\<forall>e. load_metadata L E s inp = Inl e \<longrightarrow> exc_class_of e = InvalidMetadataError) \<and>
   (lookup s (inp @ [METADATA_FILENAME]) = Some (File md c) \<and>
    decrypt_metadata E (drop NONCE_SIZE c) (take NONCE_SIZE c) = Inr bs \<and>
    json_loads L bs = Inr j \<longrightarrow> load_metadata L E s inp = parse_manifest j) \<and>
   ((\<exists>ml. parse_manifest j = Inr ml) =
    (\<exists>kvs ms. j = JObj kvs \<and> py_eq_int (get_or kvs ''version'' JNull) 1 \<and>
       py_iter (get_or kvs ''files'' (JArr [])) = Inr ms \<and>
       (\<forall>m \<in> set ms. entry_shape_ok m))) \<and>
   (\<forall>e. parse_manifest j = Inl e \<longrightarrow> exc_class_of e = InvalidMetadataError) \<and>
   (\<forall>kvs ms ml. j = JObj kvs \<and> py_iter (get_or kvs ''files'' (JArr [])) = Inr ms \<and>
       parse_manifest j = Inr ml \<longrightarrow>
       length ml = length ms \<and>
       (\<forall>i<length ms. \<forall>es. ms ! i = JObj es \<longrightarrow>
          relative_path (ml ! i) = get_or es ''relative_path'' JNull \<and>
          original_size (ml ! i) = get_or es ''original_size'' JNull \<and>
          encrypted_size (ml ! i) = get_or es ''encrypted_size'' JNull \<and>
          is_directory (ml ! i) = get_or es ''is_directory'' JNull \<and>
          permissions (ml ! i) = get_or es ''permissions'' JNull))"
proof -
  have c1: "\<forall>e. load_metadata L E s inp = Inl e \<longrightarrow> exc_class_of e = InvalidMetadataError"
    using load_metadata_class by blast
  have c2: "lookup s (inp @ [METADATA_FILENAME]) = Some (File md c) \<and>
    decrypt_metadata E (drop NONCE_SIZE c) (take NONCE_SIZE c) = Inr bs \<and>
    json_loads L bs = Inr j \<longrightarrow> load_metadata L E s inp = parse_manifest j"
    using load_metadata_parse by blast
  have c3: "(\<exists>ml. parse_manifest j = Inr ml) =
    (\<exists>kvs ms. j = JObj kvs \<and> py_eq_int (get_or kvs ''version'' JNull) 1 \<and>
       py_iter (get_or kvs ''files'' (JArr [])) = Inr ms \<and>
       (\<forall>m \<in> set ms. entry_shape_ok m))"
  proof (cases j)
    case (JObj kvs)
    show ?thesis
    proof (cases "py_iter (get_or kvs ''files'' (JArr []))")
      case (Inl e)
      then show ?thesis using JObj by (simp add: parse_manifest_def)
    next
      case (Inr ms)
      show ?thesis using JObj Inr parse_entries_Inr[of ms]
        by (auto simp: parse_manifest_def split: sum.splits)
    qed
  qed (simp_all add: parse_manifest_def)
  have c4: "\<forall>e. parse_manifest j = Inl e \<longrightarrow> exc_class_of e = InvalidMetadataError"
    using parse_manifest_class by blast
  have c5: "\<forall>kvs ms ml. j = JObj kvs \<and> py_iter (get_or kvs ''files'' (JArr [])) = Inr ms \<and>
       parse_manifest j = Inr ml \<longrightarrow>
       length ml = length ms \<and>
       (\<forall>i<length ms. \<forall>es. ms ! i = JObj es \<longrightarrow>
          relative_path (ml ! i) = get_or es ''relative_path'' JNull \<and>
          original_size (ml ! i) = get_or es ''original_size'' JNull \<and>
          encrypted_size (ml ! i) = get_or es ''encrypted_size'' JNull \<and>
          is_directory (ml ! i) = get_or es ''is_directory'' JNull \<and>
          permissions (ml ! i) = get_or es ''permissions'' JNull)"
  proof (intro allI impI)
    fix kvs ms ml
    assume h: "j = JObj kvs \<and> py_iter (get_or kvs ''files'' (JArr [])) = Inr ms \<and>
       parse_manifest j = Inr ml"
    then have pe: "parse_entries ms = Inr ml"
      by (auto simp: parse_manifest_def split: if_splits sum.splits)
    have "\<forall>i<length ms. \<forall>es. ms ! i = JObj es \<longrightarrow>
          relative_path (ml ! i) = get_or es ''relative_path'' JNull \<and>
          original_size (ml ! i) = get_or es ''original_size'' JNull \<and>
          encrypted_size (ml ! i) = get_or es ''encrypted_size'' JNull \<and>
          is_directory (ml ! i) = get_or es ''is_directory'' JNull \<and>
          permissions (ml ! i) = get_or es ''permissions'' JNull"
    proof (intro allI impI)
      fix i es assume i: "i < length ms" and es: "ms ! i = JObj es"
      from parse_entries_nth[OF pe] i es have "new_FileMetadata (JObj es) = Inr (ml ! i)"
        by auto
      from new_FileMetadata_fields[OF this]
      show "relative_path (ml ! i) = get_or es ''relative_path'' JNull \<and>
          original_size (ml ! i) = get_or es ''original_size'' JNull \<and>
          encrypted_size (ml ! i) = get_or es ''encrypted_size'' JNull \<and>
          is_directory (ml ! i) = get_or es ''is_directory'' JNull \<and>
          permissions (ml ! i) = get_or es ''permissions'' JNull" .
    qed
    with parse_entries_nth[OF pe] show "length ml = length ms \<and>
       (\<forall>i<length ms. \<forall>es. ms ! i = JObj es \<longrightarrow>
          relative_path (ml ! i) = get_or es ''relative_path'' JNull \<and>
          original_size (ml ! i) = get_or es ''original_size'' JNull \<and>
          encrypted_size (ml ! i) = get_or es ''encrypted_size'' JNull \<and>
          is_directory (ml ! i) = get_or es ''is_directory'' JNull \<and>
          permissions (ml ! i) = get_or es ''permissions'' JNull)"
      by simp
  qed
  show ?thesis
    apply (rule conjI, rule c1)
    apply (rule conjI, rule c2)
    apply (rule conjI, rule c3)
    apply (rule conjI, rule c4)
    apply (rule c5)
    done
qed

lemma new_file_entry: "new_FileMetadata (file_entry rp) = Inr (file_meta rp)"
  by (simp add: new_FileMetadata_def file_entry_def file_meta_def field_names_def
      required_fields_def get_or_def)

lemma parse_file_entries: "parse_entries (map file_entry rps) = Inr (map file_meta rps)"
  by (induction rps) (simp_all add: new_file_entry)

lemma parse_file_manifest:
  "parse_manifest (JObj [(''version'', JInt 1), (''files'', JArr (map file_entry rps))])
     = Inr (map file_meta rps)"
  by (simp add: parse_manifest_def get_or_def parse_file_entries)

lemma demo_open_manifest:
  "decrypt_metadata demo_engine (drop NONCE_SIZE (demo_nonce @ body @ replicate 16 7))
      (take NONCE_SIZE (demo_nonce @ body @ replicate 16 7)) = Inr body"
  by (simp add: decrypt_metadata_def NONCE_SIZE_def length_demo_nonce demo_engine_def
      demo_AESGCM_def demo_tag_sevens)

lemma lookup_manifest_os:
  "lookup (manifest_os body) ([''enc''] @ [METADATA_FILENAME]) =
     Some (File 420 (demo_nonce @ body @ replicate 16 7))"
  by (simp add: lookup_def manifest_os_def METADATA_FILENAME_def)

lemma demo_loads [simp]: "json_loads demo_lib = demo_json_loads"
  by (simp add: demo_lib_def)

lemma escape_manifest_entries: "escape_manifest =
   JObj [(''version'', JInt 1), (''files'', JArr (map file_entry [''../x'']))]"
  by (simp add: escape_manifest_def file_entry_def)

text \<open>
  The claim as the specification states it fails: a manifest with a repeated path, a path
  through \<^verbatim>\<open>..\<close>, an absolute path, an empty path, an empty component and the two reserved
  names is accepted, and so is the sealed manifest of an encrypted folder whose only entry
  is \<^verbatim>\<open>../x\<close>.
\<close>

theorem manifest_validation_counterexample:
  "parse_manifest
     (JObj [(''version'', JInt 1),
            (''files'', JArr [file_entry ''../x'', file_entry ''../x'', file_entry ''/etc/passwd'',
                              file_entry '''', file_entry ''a//b'', file_entry ''.salt'',
                              file_entry ''.folder_crypto_metadata.enc''])])
     = Inr [file_meta ''../x'', file_meta ''../x'', file_meta ''/etc/passwd'',
            file_meta '''', file_meta ''a//b'', file_meta ''.salt'',
            file_meta ''.folder_crypto_metadata.enc''] \<and>
   load_metadata demo_lib demo_engine (manifest_os escape_manifest_text) [''enc'']
     = Inr [file_meta ''../x'']"
proof
  show "parse_manifest
     (JObj [(''version'', JInt 1),
            (''files'', JArr [file_entry ''../x'', file_entry ''../x'', file_entry ''/etc/passwd'',
                              file_entry '''', file_entry ''a//b'', file_entry ''.salt'',
                              file_entry ''.folder_crypto_metadata.enc''])])
     = Inr [file_meta ''../x'', file_meta ''../x'', file_meta ''/etc/passwd'',
            file_meta '''', file_meta ''a//b'', file_meta ''.salt'',
            file_meta ''.folder_crypto_metadata.enc'']"
    using parse_file_manifest[of "[''../x'', ''../x'', ''/etc/passwd'', '''', ''a//b'', ''.salt'',
       ''.folder_crypto_metadata.enc'']"]
    by simp
  have "load_metadata demo_lib demo_engine (manifest_os escape_manifest_text) [''enc'']
     = parse_manifest escape_manifest"
    by (rule load_metadata_parse[OF lookup_manifest_os demo_open_manifest])
       (simp add: demo_json_loads_def escape_manifest_text_def)
  then show "load_metadata demo_lib demo_engine (manifest_os escape_manifest_text) [''enc'']
     = Inr [file_meta ''../x'']"
    using parse_file_manifest[of "[''../x'']"] by (simp add: escape_manifest_entries)
qed

theorem manifest_validation_witness:
  "load_metadata demo_lib demo_engine (manifest_os [123, 125]) [''enc''] =
     Inl (Exn InvalidMetadataError ''Unsupported metadata version: {}'' [AJson JNull]) \<and>
   (\<exists>ml. parse_manifest (JObj [(''version'', JInt 1), (''files'', JArr [file_entry ''a/b''])])
            = Inr ml \<and> length ml = 1 \<and> relative_path (ml ! 0) = JStr ''a/b'') \<and>
   (\<exists>e. parse_manifest (JObj [(''version'', JInt 1),
                               (''files'', JArr [JObj [(''relative_path'', JStr ''a'')]])])
            = Inl e \<and> exc_class_of e = InvalidMetadataError)"
proof (intro conjI)
  have l: "json_loads demo_lib [123, 125] = Inr (JObj [])"
    by (simp add: demo_json_loads_def)
  from manifest_validation [of demo_lib demo_engine "manifest_os [123, 125]" "[''enc'']"
      420 "demo_nonce @ [123, 125] @ replicate 16 7" "[123, 125]" "JObj []"]
  have "load_metadata demo_lib demo_engine (manifest_os [123, 125]) [''enc''] =
      parse_manifest (JObj [])"
    using lookup_manifest_os[of "[123, 125]"] demo_open_manifest[of "[123, 125]"] l by blast
  then show "load_metadata demo_lib demo_engine (manifest_os [123, 125]) [''enc''] =
     Inl (Exn InvalidMetadataError ''Unsupported metadata version: {}'' [AJson JNull])"
    by (simp add: parse_manifest_def get_or_def)
next
  let ?j = "JObj [(''version'', JInt 1), (''files'', JArr [file_entry ''a/b''])]"
  note T = manifest_validation [of _ _ _ _ _ _ _ ?j]
  have ok: "entry_shape_ok (file_entry ''a/b'')"
    by (simp add: entry_shape_ok_def file_entry_def field_names_def required_fields_def)
  have "\<exists>ml. parse_manifest ?j = Inr ml"
    using T ok by (simp add: get_or_def)
  then obtain ml where ml: "parse_manifest ?j = Inr ml" by blast
  have "length ml = length [file_entry ''a/b''] \<and>
     (\<forall>i<length [file_entry ''a/b'']. \<forall>es. [file_entry ''a/b''] ! i = JObj es \<longrightarrow>
          relative_path (ml ! i) = get_or es ''relative_path'' JNull)"
    using T ml by (simp add: get_or_def)
  then have "length ml = 1 \<and> relative_path (ml ! 0) = JStr ''a/b''"
    by (simp add: file_entry_def get_or_def)
  with ml show "\<exists>ml. parse_manifest ?j = Inr ml \<and> length ml = 1 \<and>
      relative_path (ml ! 0) = JStr ''a/b''" by blast
next
  let ?j = "JObj [(''version'', JInt 1),
                  (''files'', JArr [JObj [(''relative_path'', JStr ''a'')]])]"
  note T = manifest_validation [of _ _ _ _ _ _ _ ?j]
  have bad: "\<not> entry_shape_ok (JObj [(''relative_path'', JStr ''a'')])"
    by (simp add: entry_shape_ok_def field_names_def required_fields_def)
  have "\<not> (\<exists>ml. parse_manifest ?j = Inr ml)"
    using T bad by (simp add: get_or_def)
  then obtain e where e: "parse_manifest ?j = Inl e" by (cases "parse_manifest ?j") auto
  with T have "exc_class_of e = InvalidMetadataError" by blast
  with e show "\<exists>e. parse_manifest ?j = Inl e \<and> exc_class_of e = InvalidMetadataError" by blast
qed

section \<open>A manifest that does not authenticate\<close>














section \<open>Password strength\<close>

lemma demo_classes [simp]:
  "isupper demo_lib = (\<lambda>c. c \<in> set ''ABCDEFGHIJKLMNOPQRSTUVWXYZ'')"
  "islower demo_lib = (\<lambda>c. c \<in> set ''abcdefghijklmnopqrstuvwxyz'')"
  "isdigit demo_lib = (\<lambda>c. c \<in> set ''0123456789'')"
  "isalnum demo_lib = (\<lambda>c. c \<in> set ''ABCDEFGHIJKLMNOPQRSTUVWXYZabcdefghijklmnopqrstuvwxyz0123456789'')"
  by (simp_all add: demo_lib_def)

text \<open>
  Claim C10. \<^verbatim>\<open>verify_password_strength\<close> accepts a password if and only if it has at least 8
  characters. For a password of fewer than 12 characters the whole result, message included,
  depends on the length alone, whatever the character classes say. For 12 characters and
  more the password is accepted and the message is selected by the number \<open>n\<close> of classes
  present among upper case, lower case, digit and non-alphanumeric: strong for \<open>n \<ge> 3\<close>,
  moderate for \<open>n = 2\<close>, weak but acceptable otherwise.
\<close>

theorem verify_password_strength_by_length:
  "fst (verify_password_strength L p) = (8 \<le> length p) \<and>
   (length p < 12 \<and> length q = length p \<longrightarrow>
      verify_password_strength L' q = verify_password_strength L p) \<and>
   (12 \<le> length p \<longrightarrow>
      verify_password_strength L p =
        (True,
         let n = length (filter (\<lambda>has. has)
                   [\<exists>c \<in> set p. isupper L c, \<exists>c \<in> set p. islower L c,
                    \<exists>c \<in> set p. isdigit L c, \<exists>c \<in> set p. \<not> isalnum L c])
         in if 3 \<le> n then ''Password is strong''
            else if 2 \<le> n then ''Password is moderate''
            else ''Password is weak but acceptable''))"
  by (simp add: verify_password_strength_def Let_def list_ex_iff)

theorem verify_password_strength_by_length_witness:
  "verify_password_strength demo_lib ''StrongPass123!'' = (True, ''Password is strong'') \<and>
   verify_password_strength demo_lib ''strongpass1234'' = (True, ''Password is moderate'') \<and>
   verify_password_strength demo_lib ''aaaaaaaaaaaaaa''
     = (True, ''Password is weak but acceptable'') \<and>
   fst (verify_password_strength demo_lib ''12345678'') \<and>
   \<not> fst (verify_password_strength demo_lib ''Ab1!xyz'') \<and>
   verify_password_strength demo_lib ''abcdefgh'' = verify_password_strength demo_lib ''12345678''"
  using verify_password_strength_by_length [of demo_lib "''StrongPass123!''" "''''" demo_lib]
    verify_password_strength_by_length [of demo_lib "''strongpass1234''" "''''" demo_lib]
    verify_password_strength_by_length [of demo_lib "''aaaaaaaaaaaaaa''" "''''" demo_lib]
    verify_password_strength_by_length [of demo_lib "''12345678''" "''abcdefgh''" demo_lib]
    verify_password_strength_by_length [of demo_lib "''Ab1!xyz''" "''''" demo_lib]
  by simp

end
